theory Spec2Isabelle
  imports Main "HOL-Library.AList"
begin

section \<open>Python values of the configuration\<close>

text \<open>
  The plugin of \<^verbatim>\<open>main.py\<close> reads its configuration with \<^verbatim>\<open>json.load\<close>, so a
  configuration is a \<^verbatim>\<open>Dict[str, Any]\<close> whose values are what JSON can hold. A dict is an
  association list with distinct keys in insertion order: \<open>map_of\<close> is the lookup and
  \<open>AList.update\<close> is item assignment (it replaces in place or appends at the end, as a
  Python dict does). Numbers are integers; JSON numbers with a fraction are outside the model.
  Strings are ASCII text.
\<close>

datatype jval =
    JNull
  | JBool bool
  | JInt int
  | JStr string
  | JArr "jval list"
  | JObj "(string \<times> jval) list"

type_synonym pydict = "(string \<times> jval) list"

text \<open>
  Exceptions. \<^verbatim>\<open>asyncio.CancelledError\<close> derives from \<^verbatim>\<open>BaseException\<close>, so an
  \<^verbatim>\<open>except Exception\<close> clause does not catch it; every other exception of the model is an
  \<^verbatim>\<open>Exception\<close>. \<open>PyError c m\<close> is an exception of class \<open>c\<close> whose \<^verbatim>\<open>str()\<close> is \<open>m\<close>.
\<close>

datatype exn = CancelledError | TimeoutError | PyError string string

fun is_Exception :: "exn \<Rightarrow> bool" where
  "is_Exception CancelledError = False"
| "is_Exception TimeoutError = True"
| "is_Exception (PyError c m) = True"

fun exn_str :: "exn \<Rightarrow> string" where
  "exn_str CancelledError = ''''"
| "exn_str TimeoutError = ''''"
| "exn_str (PyError c m) = m"

text \<open>Truth value of a Python object, as \<^verbatim>\<open>if x\<close>, \<^verbatim>\<open>not x\<close> and \<^verbatim>\<open>x or y\<close> test it.\<close>

fun truthy :: "jval \<Rightarrow> bool" where
  "truthy JNull = False"
| "truthy (JBool b) = b"
| "truthy (JInt n) = (n \<noteq> 0)"
| "truthy (JStr s) = (s \<noteq> [])"
| "truthy (JArr xs) = (xs \<noteq> [])"
| "truthy (JObj d) = (d \<noteq> [])"

definition py_or :: "jval \<Rightarrow> jval \<Rightarrow> jval" where
  "py_or a b = (if truthy a then a else b)"

text \<open>\<^verbatim>\<open>d.get(k, default)\<close> on a dict; \<^verbatim>\<open>d.get(k)\<close> is \<open>dict_get d k JNull\<close>.\<close>

definition dict_get :: "pydict \<Rightarrow> string \<Rightarrow> jval \<Rightarrow> jval" where
  "dict_get d k dflt = (case map_of d k of None \<Rightarrow> dflt | Some v \<Rightarrow> v)"

text \<open>
  \<^verbatim>\<open>x.get(k)\<close> on an arbitrary value: only a dict has the method, on anything else the
  attribute lookup raises \<^verbatim>\<open>AttributeError\<close>.
\<close>

definition no_attribute :: "string \<Rightarrow> exn" where
  "no_attribute name = PyError ''AttributeError'' (''object has no attribute '' @ name)"

fun attr_get :: "jval \<Rightarrow> string \<Rightarrow> exn + jval" where
  "attr_get (JObj d) k = Inr (dict_get d k JNull)"
| "attr_get v k = Inl (no_attribute ''get'')"

text \<open>
  \<^verbatim>\<open>int(x)\<close>. On a string the built-in parses a decimal literal or raises
  \<^verbatim>\<open>ValueError\<close>; the parser belongs to the language, not to the repository, and is the
  parameter \<open>int_of_str\<close> (\<open>None\<close> where it raises).
\<close>

fun py_int :: "(string \<Rightarrow> int option) \<Rightarrow> jval \<Rightarrow> exn + int" where
  "py_int int_of_str (JInt n) = Inr n"
| "py_int int_of_str (JBool b) = Inr (if b then 1 else 0)"
| "py_int int_of_str (JStr s) =
     (case int_of_str s of
        None \<Rightarrow> Inl (PyError ''ValueError'' ''invalid literal for int() with base 10'')
      | Some n \<Rightarrow> Inr n)"
| "py_int int_of_str v =
     Inl (PyError ''TypeError'' ''int() argument must be a string, a bytes-like object or a real number'')"

text \<open>\<^verbatim>\<open>str(n)\<close> of an integer: its decimal digits, with a minus sign when negative.\<close>

definition digit_char :: "nat \<Rightarrow> char" where
  "digit_char d = ''0123456789'' ! d"

fun nat_str :: "nat \<Rightarrow> string" where
  "nat_str n = (if n < 10 then [digit_char n] else nat_str (n div 10) @ [digit_char (n mod 10)])"

declare nat_str.simps [simp del]

definition int_str :: "int \<Rightarrow> string" where
  "int_str i = (if i < 0 then CHR ''-'' # nat_str (nat (- i)) else nat_str (nat i))"

text \<open>\<^verbatim>\<open>s.upper()\<close> on ASCII text: the letters a to z are mapped to A to Z.\<close>

definition upper_char :: "char \<Rightarrow> char" where
  "upper_char c =
     (case map_of (zip ''abcdefghijklmnopqrstuvwxyz'' ''ABCDEFGHIJKLMNOPQRSTUVWXYZ'') c of
        None \<Rightarrow> c
      | Some u \<Rightarrow> u)"

definition str_upper :: "string \<Rightarrow> string" where
  "str_upper s = map upper_char s"

text \<open>\<^verbatim>\<open>x.upper()\<close> on an arbitrary value: only a string has the method.\<close>

fun attr_upper :: "jval \<Rightarrow> exn + string" where
  "attr_upper (JStr s) = Inr (str_upper s)"
| "attr_upper v = Inl (no_attribute ''upper'')"

text \<open>
  \<^verbatim>\<open>needle in haystack\<close> on two strings: the needle starts at some position of the
  haystack. With a left operand that is not a string Python raises \<^verbatim>\<open>TypeError\<close>.
\<close>

fun starts_with :: "string \<Rightarrow> string \<Rightarrow> bool" where
  "starts_with [] ys = True"
| "starts_with (x # xs) [] = False"
| "starts_with (x # xs) (y # ys) = (x = y \<and> starts_with xs ys)"

fun str_contains :: "string \<Rightarrow> string \<Rightarrow> bool" where
  "str_contains needle [] = (needle = [])"
| "str_contains needle (c # cs) = (starts_with needle (c # cs) \<or> str_contains needle cs)"

fun py_in :: "jval \<Rightarrow> string \<Rightarrow> exn + bool" where
  "py_in (JStr s) body = Inr (str_contains s body)"
| "py_in v body = Inl (PyError ''TypeError'' ''in <string> requires string as left operand'')"

section \<open>Observable effects\<close>

text \<open>
  What the plugin does to the outside world is recorded as a list of effects, in the order
  the code performs them. A log entry carries the level and the message as written in the
  source (format fields are not expanded). \<open>Call_do_login\<close> marks the point where the loop
  calls \<^verbatim>\<open>self.do_login()\<close>; the effects of the call follow it. The logger and
  \<^verbatim>\<open>decky.emit\<close> are taken to return normally.
\<close>

datatype level = Info | Warning | Error

record login_url =
  protocol :: string
  login_ip :: jval
  login_path :: jval

text \<open>
  A request as handed to \<^verbatim>\<open>urllib.request.urlopen\<close>. \<open>req_query = Some ps\<close> stands for
  the query string \<^verbatim>\<open>"?" + urlencode(ps)\<close> appended to the URL, \<open>req_data = Some ps\<close> for
  the body \<^verbatim>\<open>urlencode(ps).encode()\<close>.
\<close>

record http_request =
  req_method :: string
  req_url :: login_url
  req_query :: "pydict option"
  req_data :: "pydict option"
  req_headers :: "(string \<times> string) list"

datatype effect =
    Log level string
  | Run_ping jval int
  | Emit_ping_status jval bool int int
  | Http_call http_request
  | Emit_login_status bool int string int
  | Call_do_login
  | Sleep int

section \<open>Prober\<close>

text \<open>
  What awaiting the \<^verbatim>\<open>ping\<close> subprocess under \<^verbatim>\<open>asyncio.wait_for\<close> yields: the exit
  code, or a raised exception (\<open>TimeoutError\<close> when the deadline of \<open>timeout + 1\<close> seconds
  expires, \<open>CancelledError\<close> when the calling task is cancelled meanwhile, anything else when
  the subprocess cannot be started).
\<close>

datatype ping_outcome = Exit_code int | Raises exn

record ping_result =
  pr_host :: jval
  pr_success :: bool
  pr_rc :: int
  pr_error :: "string option"

fun run_ping :: "jval \<Rightarrow> int \<Rightarrow> ping_outcome \<Rightarrow> effect list \<times> (exn + ping_result)" where
  "run_ping host timeout (Exit_code rc) =
     ([Run_ping host timeout],
      Inr \<lparr>pr_host = host, pr_success = (rc = 0), pr_rc = rc, pr_error = None\<rparr>)"
| "run_ping host timeout (Raises TimeoutError) =
     ([Run_ping host timeout, Log Warning ''Ping timeout for {host}''],
      Inr \<lparr>pr_host = host, pr_success = False, pr_rc = - 1, pr_error = Some ''timeout''\<rparr>)"
| "run_ping host timeout (Raises e) =
     (if is_Exception e
      then ([Run_ping host timeout, Log Error ''Ping failed for {host}: {e}''],
            Inr \<lparr>pr_host = host, pr_success = False, pr_rc = - 1, pr_error = Some (exn_str e)\<rparr>)
      else ([Run_ping host timeout], Inl e))"

section \<open>Authenticator\<close>

definition DEFAULT_LOGIN_IP :: string where
  "DEFAULT_LOGIN_IP = ''221.1.64.43''"

definition DEFAULT_PING_TARGET :: string where
  "DEFAULT_PING_TARGET = ''8.8.8.8''"

definition USER_AGENT :: string where
  "USER_AGENT = ''Mozilla/5.0''"

text \<open>
  \<^verbatim>\<open>_build_login_url\<close>: the three pieces of the format string
  \<^verbatim>\<open>f"{protocol}://{login_ip}{login_path}"\<close>.
\<close>

definition build_login_url :: "pydict \<Rightarrow> login_url" where
  "build_login_url config =
     \<lparr>protocol = (if truthy (dict_get config ''use_https'' JNull) then ''https'' else ''http''),
      login_ip = dict_get config ''login_ip'' (JStr DEFAULT_LOGIN_IP),
      login_path = dict_get config ''login_path'' (JStr ''/drcom/login'')\<rparr>"

text \<open>
  What \<^verbatim>\<open>urlopen\<close> (with reading and decoding the body) does with a request: a response
  with status and body, an \<^verbatim>\<open>HTTPError\<close> with code and reason, a \<^verbatim>\<open>URLError\<close> with
  its reason, or any other exception with its class and text.
\<close>

datatype http_outcome =
    Response int string
  | HTTPError int string
  | URLError string
  | Other_error string string

record http_result =
  hr_status :: int
  hr_body :: string
  hr_error :: "string option"

fun http_result_of :: "http_outcome \<Rightarrow> effect list \<times> http_result" where
  "http_result_of (Response status body) =
     ([Log Info ''Response: {status}, size: {len(body)} bytes''],
      \<lparr>hr_status = status, hr_body = body, hr_error = None\<rparr>)"
| "http_result_of (HTTPError code reason) =
     ([Log Error ''HTTP Error {e.code}: {e.reason}''],
      \<lparr>hr_status = code, hr_body = [], hr_error = Some (''HTTP '' @ int_str code)\<rparr>)"
| "http_result_of (URLError reason) =
     ([Log Error ''URL Error: {e.reason}''],
      \<lparr>hr_status = - 1, hr_body = [], hr_error = Some reason\<rparr>)"
| "http_result_of (Other_error cls msg) =
     ([Log Error ''Request failed: {type(e).__name__}: {e}''],
      \<lparr>hr_status = - 1, hr_body = [], hr_error = Some msg\<rparr>)"

definition get_request :: "login_url \<Rightarrow> pydict \<Rightarrow> http_request" where
  "get_request url params =
     \<lparr>req_method = ''GET'', req_url = url, req_query = Some params, req_data = None,
      req_headers = [(''User-Agent'', USER_AGENT)]\<rparr>"

definition post_request :: "login_url \<Rightarrow> pydict \<Rightarrow> http_request" where
  "post_request url params =
     \<lparr>req_method = ''POST'', req_url = url, req_query = None, req_data = Some params,
      req_headers = [(''Content-Type'', ''application/x-www-form-urlencoded''),
                     (''User-Agent'', USER_AGENT)]\<rparr>"

text \<open>\<^verbatim>\<open>_make_http_request\<close>; \<open>urlopen\<close> is the network as the request meets it.\<close>

definition make_http_request ::
  "(http_request \<Rightarrow> http_outcome) \<Rightarrow> string \<Rightarrow> login_url \<Rightarrow> pydict \<Rightarrow> effect list \<times> http_result" where
  "make_http_request urlopen method url params =
     (if method = ''GET''
      then (let req = get_request url params;
                (fx, res) = http_result_of (urlopen req)
            in (Log Info ''GET {full_url[:150]}...'' # Http_call req # fx, res))
      else (let req = post_request url params;
                (fx, res) = http_result_of (urlopen req)
            in (Log Info ''POST {url}'' # Http_call req # fx, res)))"

text \<open>
  Dict objects live in a store, addressed by position. \<^verbatim>\<open>d.copy()\<close> allocates a new
  object with the same items, \<^verbatim>\<open>d[k] = v\<close> changes the object at its address.
\<close>

type_synonym heap = "pydict list"

definition dict_copy :: "heap \<Rightarrow> nat \<Rightarrow> heap \<times> nat" where
  "dict_copy h a = (h @ [h ! a], length h)"

definition dict_setitem :: "heap \<Rightarrow> nat \<Rightarrow> string \<Rightarrow> jval \<Rightarrow> heap" where
  "dict_setitem h a k v = h[a := AList.update k v (h ! a)]"

text \<open>
  Lines 273 and 277 of \<^verbatim>\<open>do_login\<close> on the store: \<open>a\<close> is the address of the dict held
  by \<^verbatim>\<open>cfg["params"]\<close>, \<open>now_ms\<close> is \<^verbatim>\<open>int(time.time() * 1000)\<close>; the result is the store
  afterwards and the address bound to the local \<^verbatim>\<open>params\<close>.
\<close>

definition volatile_value :: "int \<Rightarrow> jval" where
  "volatile_value now_ms = JStr (int_str (now_ms mod 10000))"

definition login_params :: "heap \<Rightarrow> nat \<Rightarrow> int \<Rightarrow> heap \<times> nat" where
  "login_params h a now_ms =
     (let (h1, p) = dict_copy h a
      in (dict_setitem h1 p ''v'' (volatile_value now_ms), p))"

text \<open>The environment of one login attempt.\<close>

record login_env =
  clock_ms :: int
  urlopen :: "http_request \<Rightarrow> http_outcome"
  clock_s :: int

record login_result =
  lr_success :: bool
  lr_status :: int
  lr_body :: "string option"
  lr_error :: "string option"

text \<open>Lines 293 to 299: the decision on the response.\<close>

definition login_success :: "jval \<Rightarrow> http_result \<Rightarrow> exn + bool" where
  "login_success success_check res =
     (if hr_status res = 200
      then (if truthy success_check then py_in success_check (hr_body res) else Inr True)
      else Inr False)"

text \<open>Line 302: \<^verbatim>\<open>error or (body[:256] if body else "")\<close>.\<close>

definition login_message :: "http_result \<Rightarrow> string" where
  "login_message res =
     (case hr_error res of
        None \<Rightarrow> take 256 (hr_body res)
      | Some e \<Rightarrow> if e \<noteq> [] then e else take 256 (hr_body res))"

text \<open>Lines 270 to 314: the attempt itself, once the credentials are there.\<close>

definition login_attempt :: "login_env \<Rightarrow> pydict \<Rightarrow> effect list \<times> (exn + login_result)" where
  "login_attempt env cfg =
     (let url = build_login_url cfg
      in case attr_upper (dict_get cfg ''method'' (JStr ''GET'')) of
           Inl e \<Rightarrow> ([], Inl e)
         | Inr method \<Rightarrow>
            (case dict_get cfg ''params'' (JObj []) of
               JObj d \<Rightarrow>
                 (let (h, p) = login_params [d] 0 (clock_ms env);
                      params = h ! p;
                      success_check = dict_get cfg ''success_check_string'' (JStr []);
                      (fx, res) = make_http_request (urlopen env) method url params;
                      fx1 = Log Info ''Login attempt: {method} {url} with {len(params)} parameters'' # fx
                  in case login_success success_check res of
                       Inl e \<Rightarrow> (fx1, Inl e)
                     | Inr ok \<Rightarrow>
                         (fx1 @ [Emit_login_status ok (hr_status res) (login_message res) (clock_s env),
                                 Log Info ''Login {succeeded|failed}: status={status}''],
                          Inr \<lparr>lr_success = ok, lr_status = hr_status res,
                               lr_body = Some (take 1024 (hr_body res)),
                               lr_error = hr_error res\<rparr>))
             | v \<Rightarrow> ([], Inl (no_attribute ''copy''))))"

text \<open>
  \<^verbatim>\<open>do_login\<close>; \<open>cfg\<close> is what \<^verbatim>\<open>get_config()\<close> returns to it.
\<close>

definition do_login :: "login_env \<Rightarrow> pydict \<Rightarrow> effect list \<times> (exn + login_result)" where
  "do_login env cfg =
     (case attr_get (dict_get cfg ''params'' (JObj [])) ''DDDDD'' of
        Inl e \<Rightarrow> ([], Inl e)
      | Inr student_id \<Rightarrow>
          if \<not> truthy student_id
          then ([Log Warning ''Login skipped: Student ID (DDDDD) not configured''],
                Inr \<lparr>lr_success = False, lr_status = - 1, lr_body = None,
                     lr_error = Some ''Student ID not configured''\<rparr>)
          else (case attr_get (dict_get cfg ''params'' (JObj [])) ''upass'' of
                  Inl e \<Rightarrow> ([], Inl e)
                | Inr password \<Rightarrow>
                    if \<not> truthy password
                    then ([Log Warning ''Login skipped: Password (upass) not configured''],
                          Inr \<lparr>lr_success = False, lr_status = - 1, lr_body = None,
                               lr_error = Some ''Password not configured''\<rparr>)
                    else login_attempt env cfg))"

section \<open>Monitor loop\<close>

text \<open>The values \<^verbatim>\<open>_ping_monitor\<close> reads from the configuration at the top of a cycle.\<close>

record settings =
  s_host :: jval
  s_interval :: int
  s_timeout :: int
  s_threshold :: int
  s_backoff :: int

text \<open>\<^verbatim>\<open>int(cfg.get(key, default) or default)\<close>.\<close>

definition int_setting :: "(string \<Rightarrow> int option) \<Rightarrow> pydict \<Rightarrow> string \<Rightarrow> int \<Rightarrow> exn + int" where
  "int_setting int_of_str cfg k dflt =
     py_int int_of_str (py_or (dict_get cfg k (JInt dflt)) (JInt dflt))"

definition read_settings :: "(string \<Rightarrow> int option) \<Rightarrow> pydict \<Rightarrow> exn + settings" where
  "read_settings int_of_str cfg =
     (let host = py_or (dict_get cfg ''ping_target'' JNull) (JStr DEFAULT_PING_TARGET)
      in case int_setting int_of_str cfg ''ping_interval_sec'' 60 of
           Inl e \<Rightarrow> Inl e
         | Inr interval \<Rightarrow>
        (case int_setting int_of_str cfg ''ping_timeout_sec'' 2 of
           Inl e \<Rightarrow> Inl e
         | Inr timeout \<Rightarrow>
        (case int_setting int_of_str cfg ''consecutive_failures_threshold'' 3 of
           Inl e \<Rightarrow> Inl e
         | Inr threshold \<Rightarrow>
        (case int_setting int_of_str cfg ''backoff_attempt_sec'' 60 of
           Inl e \<Rightarrow> Inl e
         | Inr backoff \<Rightarrow>
             Inr \<lparr>s_host = host, s_interval = interval, s_timeout = timeout,
                  s_threshold = threshold, s_backoff = backoff\<rparr>))))"

text \<open>
  The environment of one cycle of the loop: what \<^verbatim>\<open>get_config()\<close> returns at the top of
  the cycle and again inside \<^verbatim>\<open>do_login\<close>, the outcome of the ping subprocess, the clock,
  the world of the login attempt, and for each of the two sleeps the exception that ends it
  early (\<open>Some CancelledError\<close> when the task is cancelled while it sleeps).
\<close>

record cycle_env =
  config :: pydict
  ping_proc :: ping_outcome
  ping_clock :: int
  login_config :: pydict
  login_world :: login_env
  backoff_sleep :: "exn option"
  interval_sleep :: "exn option"

text \<open>\<^verbatim>\<open>await asyncio.sleep(d)\<close>, handing on the value \<open>x\<close> when the sleep completes.\<close>

definition sleep_then :: "int \<Rightarrow> exn option \<Rightarrow> 'a \<Rightarrow> effect list \<times> (exn + 'a)" where
  "sleep_then d interrupt x =
     ([Sleep d], case interrupt of None \<Rightarrow> Inr x | Some e \<Rightarrow> Inl e)"

text \<open>
  Lines 398 to 401: the remediation. The result is the value of
  \<^verbatim>\<open>consecutive_failures\<close> afterwards.
\<close>

definition remediate :: "cycle_env \<Rightarrow> settings \<Rightarrow> effect list \<times> (exn + int)" where
  "remediate env s =
     (let (fx, r) = do_login (login_world env) (login_config env);
          fx1 = Log Warning ''Failure threshold reached, attempting login'' # Call_do_login # fx
      in case r of
           Inl e \<Rightarrow> (fx1, Inl e)
         | Inr result \<Rightarrow>
             (let (fx2, r2) = sleep_then (s_backoff s) (backoff_sleep env) (0::int)
              in (fx1 @ fx2, r2)))"

text \<open>
  The body of \<^verbatim>\<open>while True\<close> (lines 360 to 403), started with the counter \<open>cf\<close>: the
  effects of the cycle, and the counter at the end of the cycle or the exception that leaves
  the body.
\<close>

definition monitor_cycle ::
  "(string \<Rightarrow> int option) \<Rightarrow> cycle_env \<Rightarrow> int \<Rightarrow> effect list \<times> (exn + int)" where
  "monitor_cycle int_of_str env cf =
     (case read_settings int_of_str (config env) of
        Inl e \<Rightarrow> ([], Inl e)
      | Inr s \<Rightarrow>
         (let (fx1, r) = run_ping (s_host s) (s_timeout s) (ping_proc env)
          in case r of
               Inl e \<Rightarrow> (fx1, Inl e)
             | Inr result \<Rightarrow>
                 if pr_success result
                 then (let cf1 = (if cf > 0 then 0 else cf);
                           fx2 = (if cf > 0 then [Log Info ''Network connectivity restored''] else [])
                                 @ [Emit_ping_status (s_host s) True cf1 (ping_clock env)];
                           (fx3, r3) = sleep_then (s_interval s) (interval_sleep env) cf1
                       in (fx1 @ fx2 @ fx3, r3))
                 else (let cf1 = cf + 1;
                           fx2 = [Emit_ping_status (s_host s) False cf1 (ping_clock env),
                                  Log Warning ''Ping failure {consecutive_failures}/{threshold}'']
                       in if cf1 \<ge> s_threshold s
                          then (let (fx3, r3) = remediate env s
                                in case r3 of
                                     Inl e \<Rightarrow> (fx1 @ fx2 @ fx3, Inl e)
                                   | Inr cf2 \<Rightarrow>
                                       (let (fx4, r4) = sleep_then (s_interval s) (interval_sleep env) cf2
                                        in (fx1 @ fx2 @ fx3 @ fx4, r4)))
                          else (let (fx3, r3) = sleep_then (s_interval s) (interval_sleep env) cf1
                                in (fx1 @ fx2 @ fx3, r3)))))"

text \<open>
  The two \<^verbatim>\<open>except\<close> clauses of \<^verbatim>\<open>_ping_monitor\<close> (lines 405 to 409). They enclose the
  \<^verbatim>\<open>while\<close> statement, so after either of them the coroutine returns.
\<close>

fun loop_handler :: "exn \<Rightarrow> effect list" where
  "loop_handler CancelledError = [Log Info ''Ping monitor cancelled'']"
| "loop_handler e = [Log Error ''Ping monitor error: {e}'', Sleep 5]"

text \<open>
  The state of the coroutine: \<open>Looping cf\<close> at the top of a cycle with the counter \<open>cf\<close>,
  \<open>Returned\<close> once the coroutine has ended.
\<close>

datatype loop_state = Looping int | Returned

text \<open>
  The \<^verbatim>\<open>try\<close> statement with the loop in it, run against the environments of the cycles
  one after the other. The loop has no exit of its own; the run stops at the top of the next
  cycle when the list is used up.
\<close>

fun monitor_loop ::
  "(string \<Rightarrow> int option) \<Rightarrow> cycle_env list \<Rightarrow> int \<Rightarrow> effect list \<times> loop_state" where
  "monitor_loop int_of_str [] cf = ([], Looping cf)"
| "monitor_loop int_of_str (env # envs) cf =
     (case monitor_cycle int_of_str env cf of
        (fx, Inl e) \<Rightarrow> (fx @ loop_handler e, Returned)
      | (fx, Inr cf') \<Rightarrow>
          (let (fx', st) = monitor_loop int_of_str envs cf' in (fx @ fx', st)))"

definition ping_monitor ::
  "(string \<Rightarrow> int option) \<Rightarrow> cycle_env list \<Rightarrow> effect list \<times> loop_state" where
  "ping_monitor int_of_str envs =
     (let (fx, st) = monitor_loop int_of_str envs 0
      in (Log Info ''Ping monitor task started'' # fx, st))"

section \<open>Controller\<close>

text \<open>
  The plugin object and the tasks of its event loop. \<open>tasks\<close> holds, for every task created
  so far, whether it is done; \<open>monitor_task\<close> is the handle \<^verbatim>\<open>self._monitor_task\<close>, the
  position of a task.
\<close>

record plugin =
  loop_bound :: bool
  monitor_task :: "nat option"
  tasks :: "bool list"

definition new_plugin :: plugin where
  "new_plugin = \<lparr>loop_bound = False, monitor_task = None, tasks = []\<rparr>"

definition create_monitor_task :: "plugin \<Rightarrow> effect list \<times> plugin" where
  "create_monitor_task s =
     ([Log Info ''Ping monitor started''],
      s\<lparr>loop_bound := True, monitor_task := Some (length (tasks s)), tasks := tasks s @ [False]\<rparr>)"

definition start_ping_monitor :: "plugin \<Rightarrow> effect list \<times> plugin" where
  "start_ping_monitor s =
     (case monitor_task s of
        None \<Rightarrow> create_monitor_task s
      | Some t \<Rightarrow>
          if \<not> tasks s ! t
          then ([Log Warning ''Monitor already running''], s)
          else create_monitor_task s)"

text \<open>
  What happens to the plugin over time: a call of \<^verbatim>\<open>start_ping_monitor\<close>, or a task of the
  event loop coming to its end.
\<close>

datatype event = Start | Task_ends nat

fun step :: "plugin \<Rightarrow> event \<Rightarrow> plugin" where
  "step s Start = snd (start_ping_monitor s)"
| "step s (Task_ends t) = s\<lparr>tasks := (tasks s)[t := True]\<rparr>"

definition run_events :: "event list \<Rightarrow> plugin" where
  "run_events evs = foldl step new_plugin evs"

definition active_loops :: "plugin \<Rightarrow> nat" where
  "active_loops s = length (filter Not (tasks s))"

section \<open>Reading effects, and the configuration the plugin ships\<close>

text \<open>The requests among a list of effects, and the parameters each of them carries.\<close>

fun http_calls :: "effect list \<Rightarrow> http_request list" where
  "http_calls [] = []"
| "http_calls (Http_call req # fx) = req # http_calls fx"
| "http_calls (e # fx) = http_calls fx"

definition request_params :: "http_request \<Rightarrow> pydict" where
  "request_params req =
     (case req_query req of
        Some ps \<Rightarrow> ps
      | None \<Rightarrow> (case req_data req of Some ps \<Rightarrow> ps | None \<Rightarrow> []))"

text \<open>The calls of \<^verbatim>\<open>do_login\<close> and the sleeps among a list of effects.\<close>

definition login_calls :: "effect list \<Rightarrow> nat" where
  "login_calls fx = length (filter (\<lambda>e. e = Call_do_login) fx)"

fun sleeps :: "effect list \<Rightarrow> int list" where
  "sleeps [] = []"
| "sleeps (Sleep d # fx) = d # sleeps fx"
| "sleeps (e # fx) = sleeps fx"

fun probes :: "effect list \<Rightarrow> nat" where
  "probes [] = 0"
| "probes (Run_ping host timeout # fx) = Suc (probes fx)"
| "probes (e # fx) = probes fx"

text \<open>\<^verbatim>\<open>_default_config\<close> (lines 84 to 112).\<close>

definition default_params :: pydict where
  "default_params =
     [(''callback'', JStr ''dr1003''),
      (''DDDDD'', JStr []),
      (''upass'', JStr []),
      (''0MKKey'', JStr ''123456''),
      (''R1'', JStr ''0''),
      (''R2'', JStr []),
      (''R3'', JStr ''1''),
      (''R6'', JStr ''0''),
      (''para'', JStr ''00''),
      (''v6ip'', JStr []),
      (''terminal_type'', JStr ''1''),
      (''lang'', JStr ''zh-cn''),
      (''jsVersion'', JStr ''4.2.1'')]"

definition default_config :: pydict where
  "default_config =
     [(''login_ip'', JStr DEFAULT_LOGIN_IP),
      (''use_https'', JBool False),
      (''login_path'', JStr ''/drcom/login''),
      (''method'', JStr ''GET''),
      (''params'', JObj default_params),
      (''ping_target'', JStr DEFAULT_PING_TARGET),
      (''ping_interval_sec'', JInt 60),
      (''ping_timeout_sec'', JInt 2),
      (''consecutive_failures_threshold'', JInt 3),
      (''backoff_attempt_sec'', JInt 60),
      (''success_check_string'', JStr [])]"

text \<open>
  Inputs for the examples: the shipped configuration with a student id and a password
  filled in, a portal that answers every request with status 200, and a cycle in which the
  ping subprocess exits with a given code.
\<close>

definition sample_params :: pydict where
  "sample_params =
     AList.update ''upass'' (JStr ''secret'')
       (AList.update ''DDDDD'' (JStr ''20230001'') default_params)"

definition sample_config :: pydict where
  "sample_config = AList.update ''params'' (JObj sample_params) default_config"

definition sample_login_env :: "int \<Rightarrow> login_env" where
  "sample_login_env now_ms =
     \<lparr>clock_ms = now_ms, urlopen = (\<lambda>req. Response 200 ''login ok''), clock_s = now_ms div 1000\<rparr>"

definition sample_cycle :: "pydict \<Rightarrow> int \<Rightarrow> cycle_env" where
  "sample_cycle cfg rc =
     \<lparr>config = cfg, ping_proc = Exit_code rc, ping_clock = 1700000000,
      login_config = cfg, login_world = sample_login_env 1700000000000,
      backoff_sleep = None, interval_sleep = None\<rparr>"

text \<open>The effects a login attempt can have: log entries, a request, the status event.\<close>

fun login_effect :: "effect \<Rightarrow> bool" where
  "login_effect (Log l m) = True"
| "login_effect (Http_call req) = True"
| "login_effect (Emit_login_status ok status message t) = True"
| "login_effect e = False"

text \<open>
  Conditions on the environment of a cycle. The probe fails: the subprocess exits with a
  code other than 0, or raises an exception that \<^verbatim>\<open>_run_ping\<close> reports as data. The
  remediation completes: \<^verbatim>\<open>do_login\<close> returns a result and the backoff sleep is not cut
  short.
\<close>

definition probe_fails :: "cycle_env \<Rightarrow> bool" where
  "probe_fails env =
     (case ping_proc env of Exit_code rc \<Rightarrow> rc \<noteq> 0 | Raises e \<Rightarrow> is_Exception e)"

definition login_returns :: "cycle_env \<Rightarrow> bool" where
  "login_returns env =
     (case snd (do_login (login_world env) (login_config env)) of
        Inl e \<Rightarrow> False
      | Inr r \<Rightarrow> True)"

definition remediation_completes :: "cycle_env \<Rightarrow> bool" where
  "remediation_completes env = (login_returns env \<and> backoff_sleep env = None)"

text \<open>A parser for the examples, whose configurations hold no number as a string.\<close>

definition no_numeric_strings :: "string \<Rightarrow> int option" where
  "no_numeric_strings s = None"

text \<open>Every numeric setting of the configuration converts to an integer.\<close>

definition settings_readable :: "(string \<Rightarrow> int option) \<Rightarrow> pydict \<Rightarrow> bool" where
  "settings_readable int_of_str cfg =
     (case read_settings int_of_str cfg of Inl e \<Rightarrow> False | Inr s \<Rightarrow> True)"

text \<open>
  A configuration that makes \<^verbatim>\<open>do_login\<close> raise: the credentials are present, the
  threshold is 1, and \<^verbatim>\<open>"method": null\<close>, so that \<^verbatim>\<open>cfg.get("method", "GET")\<close> is
  \<^verbatim>\<open>None\<close>, which has no \<^verbatim>\<open>upper\<close>.
\<close>

definition null_method_config :: pydict where
  "null_method_config =
     AList.update ''method'' JNull
       (AList.update ''consecutive_failures_threshold'' (JInt 1) sample_config)"

text \<open>
  The invariant of the controller: every task that is not done is the one the handle names,
  and the handle names a task that exists.
\<close>

definition handle_inv :: "plugin \<Rightarrow> bool" where
  "handle_inv s \<longleftrightarrow>
     (\<forall>t < length (tasks s). \<not> tasks s ! t \<longrightarrow> monitor_task s = Some t)
     \<and> (case monitor_task s of None \<Rightarrow> True | Some t \<Rightarrow> t < length (tasks s))"

section \<open>The prober reports failures as data\<close>

text \<open>
  C7, as stated, at a concrete input: the task is cancelled while the probe awaits the
  subprocess. \<^verbatim>\<open>_run_ping\<close> catches \<^verbatim>\<open>asyncio.TimeoutError\<close> and \<^verbatim>\<open>Exception\<close>;
  \<^verbatim>\<open>CancelledError\<close> is neither, so no result is returned and the exception reaches the
  caller.
\<close>

theorem run_ping_cancelled_propagates:
  "snd (run_ping (JStr ''8.8.8.8'') 2 (Raises CancelledError)) = Inl CancelledError
   \<and> \<not> (\<exists>r. snd (run_ping (JStr ''8.8.8.8'') 2 (Raises CancelledError)) = Inr r)"
  by simp

text \<open>
  C7, amended: for every host, timeout and outcome of the subprocess other than the
  cancellation of the calling task, the probe returns a result. The result reports success
  exactly when the subprocess exits with code 0; on expiry of the deadline it is a failure
  with the diagnostic \<open>timeout\<close>, on any other exception a failure with the text of the
  exception.
\<close>

theorem run_ping_reports_as_data:
  assumes "outcome \<noteq> Raises CancelledError"
  shows "snd (run_ping host timeout outcome) =
           Inr \<lparr>pr_host = host,
                pr_success = (outcome = Exit_code 0),
                pr_rc = (case outcome of Exit_code rc \<Rightarrow> rc | Raises e \<Rightarrow> - 1),
                pr_error = (case outcome of
                              Exit_code rc \<Rightarrow> None
                            | Raises TimeoutError \<Rightarrow> Some ''timeout''
                            | Raises e \<Rightarrow> Some (exn_str e))\<rparr>"
  using assms by (cases "(host, timeout, outcome)" rule: run_ping.cases) auto

theorem run_ping_reports_as_data_witness:
  "Raises TimeoutError \<noteq> Raises CancelledError
   \<and> snd (run_ping (JStr ''8.8.8.8'') 2 (Raises TimeoutError)) =
       Inr \<lparr>pr_host = JStr ''8.8.8.8'', pr_success = False, pr_rc = - 1,
            pr_error = Some ''timeout''\<rparr>"
  using run_ping_reports_as_data [of "Raises TimeoutError" "JStr ''8.8.8.8''" 2] by simp

section \<open>The authenticator\<close>

subsection \<open>Strings, the store and the shape of an attempt\<close>

lemma starts_with_iff: "starts_with xs ys \<longleftrightarrow> (\<exists>q. ys = xs @ q)"
  by (induction xs ys rule: starts_with.induct) auto

lemma str_contains_iff: "str_contains s b \<longleftrightarrow> (\<exists>p q. b = p @ s @ q)"
proof (induction b)
  case Nil
  then show ?case by auto
next
  case (Cons c cs)
  show ?case
  proof
    assume "str_contains s (c # cs)"
    then consider "starts_with s (c # cs)" | "str_contains s cs" by auto
    then show "\<exists>p q. c # cs = p @ s @ q"
    proof cases
      case 1
      then obtain q where "c # cs = s @ q" by (auto simp: starts_with_iff)
      then have "c # cs = [] @ s @ q" by simp
      then show ?thesis by blast
    next
      case 2
      then obtain p q where "cs = p @ s @ q" using Cons.IH by auto
      then have "c # cs = (c # p) @ s @ q" by simp
      then show ?thesis by blast
    qed
  next
    assume "\<exists>p q. c # cs = p @ s @ q"
    then obtain p q where pq: "c # cs = p @ s @ q" by auto
    show "str_contains s (c # cs)"
    proof (cases p)
      case Nil
      with pq have "starts_with s (c # cs)" by (auto simp: starts_with_iff)
      then show ?thesis by simp
    next
      case (Cons a p')
      with pq have "cs = p' @ s @ q" by simp
      then have "str_contains s cs" using Cons.IH by auto
      then show ?thesis by simp
    qed
  qed
qed

lemma login_params_eval:
  "login_params [d] 0 now = ([d, AList.update ''v'' (volatile_value now) d], 1)"
  by (simp add: login_params_def dict_copy_def dict_setitem_def)

lemma do_login_valid:
  assumes "dict_get cfg ''params'' (JObj []) = JObj d"
    and "truthy (dict_get d ''DDDDD'' JNull)"
    and "truthy (dict_get d ''upass'' JNull)"
  shows "do_login env cfg = login_attempt env cfg"
  using assms by (simp add: do_login_def)

lemma http_calls_append: "http_calls (xs @ ys) = http_calls xs @ http_calls ys"
  by (induction xs rule: http_calls.induct) auto

lemma http_result_of_no_calls: "http_calls (fst (http_result_of out)) = []"
  by (cases out) auto

lemma make_http_request_eval:
  "make_http_request uo method url ps =
     (let req = (if method = ''GET'' then get_request url ps else post_request url ps)
      in (Log Info (if method = ''GET'' then ''GET {full_url[:150]}...'' else ''POST {url}'')
            # Http_call req # fst (http_result_of (uo req)),
          snd (http_result_of (uo req))))"
  by (simp add: make_http_request_def Let_def split: prod.splits)

lemma login_attempt_eval:
  assumes "dict_get cfg ''params'' (JObj []) = JObj d"
    and "dict_get cfg ''method'' (JStr ''GET'') = JStr m"
  shows "login_attempt env cfg =
     (let ps = AList.update ''v'' (volatile_value (clock_ms env)) d;
          req = (if str_upper m = ''GET'' then get_request (build_login_url cfg) ps
                 else post_request (build_login_url cfg) ps);
          res = snd (http_result_of (urlopen env req));
          fx1 = Log Info ''Login attempt: {method} {url} with {len(params)} parameters''
                # Log Info (if str_upper m = ''GET'' then ''GET {full_url[:150]}...'' else ''POST {url}'')
                # Http_call req # fst (http_result_of (urlopen env req))
      in case login_success (dict_get cfg ''success_check_string'' (JStr [])) res of
           Inl e \<Rightarrow> (fx1, Inl e)
         | Inr ok \<Rightarrow>
            (fx1 @ [Emit_login_status ok (hr_status res) (login_message res) (clock_s env),
                    Log Info ''Login {succeeded|failed}: status={status}''],
             Inr \<lparr>lr_success = ok, lr_status = hr_status res,
                  lr_body = Some (take 1024 (hr_body res)), lr_error = hr_error res\<rparr>))"
  using assms
  by (cases "str_upper m = ''GET''")
     (simp_all add: login_attempt_def login_params_eval make_http_request_eval Let_def
        split: sum.splits)


lemma digit_char_inj: "a < 10 \<Longrightarrow> b < 10 \<Longrightarrow> digit_char a = digit_char b \<Longrightarrow> a = b"
proof -
  assume a: "a < 10" and b: "b < 10" and eq: "digit_char a = digit_char b"
  have d: "distinct ''0123456789''" by simp
  have l: "length ''0123456789'' = 10" by simp
  from eq have "''0123456789'' ! a = ''0123456789'' ! b" by (simp only: digit_char_def)
  with d a b l show "a = b" by (simp only: nth_eq_iff_index_eq)
qed

lemma nat_str_nonempty: "nat_str n \<noteq> []"
  by (subst nat_str.simps) simp

lemma nat_str_inj: "nat_str m = nat_str n \<Longrightarrow> m = n"
proof (induction m arbitrary: n rule: nat_str.induct)
  case (1 m)
  show ?case
  proof (cases "m < 10")
    case True
    then have m: "nat_str m = [digit_char m]" by (subst nat_str.simps) simp
    show ?thesis
    proof (cases "n < 10")
      case True
      then have "nat_str n = [digit_char n]" by (subst nat_str.simps) simp
      with m "1.prems" have "digit_char m = digit_char n" by simp
      with \<open>m < 10\<close> True show ?thesis by (rule digit_char_inj)
    next
      case False
      then have "nat_str n = nat_str (n div 10) @ [digit_char (n mod 10)]"
        by (subst nat_str.simps) simp
      with m "1.prems" have "nat_str (n div 10) = []" by simp
      then show ?thesis by (simp add: nat_str_nonempty)
    qed
  next
    case False
    then have m: "nat_str m = nat_str (m div 10) @ [digit_char (m mod 10)]"
      by (subst nat_str.simps) simp
    show ?thesis
    proof (cases "n < 10")
      case True
      then have "nat_str n = [digit_char n]" by (subst nat_str.simps) simp
      with m "1.prems" have "nat_str (m div 10) = []" by simp
      then show ?thesis by (simp add: nat_str_nonempty)
    next
      case nf: False
      then have "nat_str n = nat_str (n div 10) @ [digit_char (n mod 10)]"
        by (subst nat_str.simps) simp
      with m "1.prems" have e1: "nat_str (m div 10) = nat_str (n div 10)"
        and e2: "digit_char (m mod 10) = digit_char (n mod 10)" by simp_all
      from "1.IH" [OF False e1] have d: "m div 10 = n div 10" .
      have "m mod 10 = n mod 10" by (rule digit_char_inj [OF _ _ e2]) simp_all
      with d show ?thesis by (metis div_mult_mod_eq)
    qed
  qed
qed

lemma volatile_value_eq_iff:
  "volatile_value a = volatile_value b \<longleftrightarrow> a mod 10000 = b mod 10000"
proof
  have na: "\<not> a mod 10000 < 0" and nb: "\<not> b mod 10000 < 0" by simp_all
  assume "volatile_value a = volatile_value b"
  then have "nat_str (nat (a mod 10000)) = nat_str (nat (b mod 10000))"
    by (simp add: volatile_value_def int_str_def na nb del: mod_less_eq_dividend)
  then have "nat (a mod 10000) = nat (b mod 10000)" by (rule nat_str_inj)
  then show "a mod 10000 = b mod 10000" by simp
next
  assume "a mod 10000 = b mod 10000"
  then show "volatile_value a = volatile_value b" by (simp add: volatile_value_def)
qed

lemma login_params_store:
  assumes "a < length h"
  shows "fst (login_params h a now) ! a = h ! a"
    and "fst (login_params h a now) ! snd (login_params h a now)
           = AList.update ''v'' (volatile_value now) (h ! a)"
    and "snd (login_params h a now) \<noteq> a"
  using assms
  by (simp_all add: login_params_def dict_copy_def dict_setitem_def nth_append)

lemma do_login_http_calls:
  assumes "dict_get cfg ''params'' (JObj []) = JObj d"
    and "truthy (dict_get d ''DDDDD'' JNull)"
    and "truthy (dict_get d ''upass'' JNull)"
    and "dict_get cfg ''method'' (JStr ''GET'') = JStr m"
  shows "http_calls (fst (do_login env cfg)) =
           [if str_upper m = ''GET''
            then get_request (build_login_url cfg) (AList.update ''v'' (volatile_value (clock_ms env)) d)
            else post_request (build_login_url cfg) (AList.update ''v'' (volatile_value (clock_ms env)) d)]"
  unfolding do_login_valid [OF assms(1-3)] login_attempt_eval [OF assms(1) assms(4)]
  by (simp add: Let_def http_calls_append http_result_of_no_calls split: sum.splits)

lemma sample_config_params:
  "dict_get sample_config ''params'' (JObj []) = JObj sample_params"
  by (simp add: sample_config_def default_config_def dict_get_def)

lemma sample_params_credentials:
  "truthy (dict_get sample_params ''DDDDD'' JNull)"
  "truthy (dict_get sample_params ''upass'' JNull)"
  by (simp_all add: sample_params_def default_params_def dict_get_def)

lemma sample_config_method:
  "dict_get sample_config ''method'' (JStr ''GET'') = JStr ''GET''"
  by (simp add: sample_config_def default_config_def dict_get_def)

subsection \<open>When a login counts as a success\<close>

text \<open>
  C2: take a configuration whose credentials are present, whose method is a string (or
  absent) and whose \<^verbatim>\<open>success_check_string\<close> is a string \<open>chk\<close> (or absent, which reads as
  the empty string). Then \<^verbatim>\<open>do_login\<close> sends one request and returns a result, and with
  \<open>status\<close> and \<open>body\<close> as \<^verbatim>\<open>_make_http_request\<close> hands them back for that request,
  the success flag is true exactly when the status is 200 and \<open>chk\<close> is empty or occurs in
  the body as a contiguous piece. So every status other than 200 is a failure, whatever the
  body.
\<close>

theorem do_login_success_iff:
  assumes "dict_get cfg ''params'' (JObj []) = JObj d"
    and "truthy (dict_get d ''DDDDD'' JNull)"
    and "truthy (dict_get d ''upass'' JNull)"
    and "dict_get cfg ''method'' (JStr ''GET'') = JStr m"
    and "dict_get cfg ''success_check_string'' (JStr []) = JStr chk"
  shows "\<exists>req r. http_calls (fst (do_login env cfg)) = [req]
           \<and> snd (do_login env cfg) = Inr r
           \<and> lr_status r = hr_status (snd (http_result_of (urlopen env req)))
           \<and> (lr_success r \<longleftrightarrow>
                hr_status (snd (http_result_of (urlopen env req))) = 200
                \<and> (chk = [] \<or> (\<exists>p q. hr_body (snd (http_result_of (urlopen env req))) = p @ chk @ q)))"
proof -
  define ps where "ps = AList.update ''v'' (volatile_value (clock_ms env)) d"
  define req where "req = (if str_upper m = ''GET'' then get_request (build_login_url cfg) ps
                 else post_request (build_login_url cfg) ps)"
  define res where "res = snd (http_result_of (urlopen env req))"
  define ok where "ok = (hr_status res = 200 \<and> (chk = [] \<or> str_contains chk (hr_body res)))"
  have ls: "login_success (JStr chk) res = Inr ok"
    by (auto simp: login_success_def ok_def)
  have dl: "do_login env cfg = login_attempt env cfg"
    using assms(1-3) by (rule do_login_valid)
  have la: "login_attempt env cfg =
      (Log Info ''Login attempt: {method} {url} with {len(params)} parameters''
        # Log Info (if str_upper m = ''GET'' then ''GET {full_url[:150]}...'' else ''POST {url}'')
        # Http_call req # fst (http_result_of (urlopen env req))
        @ [Emit_login_status ok (hr_status res) (login_message res) (clock_s env),
           Log Info ''Login {succeeded|failed}: status={status}''],
       Inr \<lparr>lr_success = ok, lr_status = hr_status res,
            lr_body = Some (take 1024 (hr_body res)), lr_error = hr_error res\<rparr>)"
    unfolding login_attempt_eval [OF assms(1) assms(4)] assms(5)
    by (simp add: Let_def ps_def [symmetric] req_def [symmetric] res_def [symmetric] ls)
  have calls: "http_calls (fst (do_login env cfg)) = [req]"
    unfolding dl la by (simp add: http_calls_append http_result_of_no_calls)
  have r: "snd (do_login env cfg) = Inr \<lparr>lr_success = ok, lr_status = hr_status res,
            lr_body = Some (take 1024 (hr_body res)), lr_error = hr_error res\<rparr>"
    unfolding dl la by simp
  show ?thesis
    using calls r by (simp add: res_def [symmetric] ok_def str_contains_iff)
qed

text \<open>
  The portal answers 200 with the body \<open>login ok\<close> and the configured check string is
  \<open>ok\<close>: the attempt succeeds.
\<close>

theorem do_login_success_iff_witness:
  "dict_get (AList.update ''success_check_string'' (JStr ''ok'') sample_config) ''params'' (JObj [])
     = JObj sample_params
   \<and> truthy (dict_get sample_params ''DDDDD'' JNull)
   \<and> truthy (dict_get sample_params ''upass'' JNull)
   \<and> dict_get (AList.update ''success_check_string'' (JStr ''ok'') sample_config) ''method'' (JStr ''GET'')
       = JStr ''GET''
   \<and> dict_get (AList.update ''success_check_string'' (JStr ''ok'') sample_config)
         ''success_check_string'' (JStr []) = JStr ''ok''
   \<and> (\<exists>r. snd (do_login (sample_login_env 1700000000000)
                   (AList.update ''success_check_string'' (JStr ''ok'') sample_config)) = Inr r
           \<and> lr_status r = 200 \<and> lr_success r)"
proof -
  let ?cfg = "AList.update ''success_check_string'' (JStr ''ok'') sample_config"
  let ?env = "sample_login_env 1700000000000"
  have p: "dict_get ?cfg ''params'' (JObj []) = JObj sample_params"
    by (simp add: sample_config_def default_config_def dict_get_def)
  have m: "dict_get ?cfg ''method'' (JStr ''GET'') = JStr ''GET''"
    by (simp add: sample_config_def default_config_def dict_get_def)
  have c: "dict_get ?cfg ''success_check_string'' (JStr []) = JStr ''ok''"
    by (simp add: sample_config_def default_config_def dict_get_def)
  have res: "\<And>req. http_result_of (urlopen ?env req)
               = ([Log Info ''Response: {status}, size: {len(body)} bytes''],
                  \<lparr>hr_status = 200, hr_body = ''login ok'', hr_error = None\<rparr>)"
    by (simp add: sample_login_env_def)
  have occurs: "\<exists>p q. ''login ok'' = p @ ''ok'' @ q"
    by (rule exI [of _ "''login ''"], rule exI [of _ "[]"]) simp
  from do_login_success_iff [OF p sample_params_credentials m c, of ?env]
  obtain r where "snd (do_login ?env ?cfg) = Inr r"
    and "lr_status r = 200"
    and "lr_success r \<longleftrightarrow> (\<exists>p q. ''login ok'' = p @ ''ok'' @ q)"
    unfolding res by auto
  with occurs have "\<exists>r. snd (do_login ?env ?cfg) = Inr r \<and> lr_status r = 200 \<and> lr_success r"
    by blast
  with p sample_params_credentials m c show ?thesis by blast
qed

subsection \<open>Missing credentials\<close>

text \<open>
  C3: when the configuration holds no params or a params dict, and the student id
  \<^verbatim>\<open>DDDDD\<close> or the password \<^verbatim>\<open>upass\<close> is missing from it or empty (or otherwise false as
  a Python value), \<^verbatim>\<open>do_login\<close> returns a failed result with status -1 and the error that
  names the missing credential, and sends no request.
\<close>

theorem do_login_missing_credentials:
  assumes "dict_get cfg ''params'' (JObj []) = JObj d"
    and "\<not> truthy (dict_get d ''DDDDD'' JNull) \<or> \<not> truthy (dict_get d ''upass'' JNull)"
  shows "\<exists>r. snd (do_login env cfg) = Inr r
           \<and> \<not> lr_success r \<and> lr_status r = - 1 \<and> lr_body r = None
           \<and> lr_error r = Some (if \<not> truthy (dict_get d ''DDDDD'' JNull)
                                 then ''Student ID not configured''
                                 else ''Password not configured'')
           \<and> http_calls (fst (do_login env cfg)) = []"
  using assms by (auto simp: do_login_def)

text \<open>The configuration as shipped has both credentials empty.\<close>

theorem do_login_missing_credentials_witness:
  "dict_get default_config ''params'' (JObj []) = JObj default_params
   \<and> dict_get default_params ''DDDDD'' JNull = JStr []
   \<and> (\<exists>r. snd (do_login (sample_login_env 1700000000000) default_config) = Inr r
           \<and> \<not> lr_success r \<and> lr_status r = - 1
           \<and> lr_error r = Some ''Student ID not configured''
           \<and> http_calls (fst (do_login (sample_login_env 1700000000000) default_config)) = [])"
proof -
  have p: "dict_get default_config ''params'' (JObj []) = JObj default_params"
    by (simp add: default_config_def dict_get_def)
  have e: "dict_get default_params ''DDDDD'' JNull = JStr []"
    by (simp add: default_params_def dict_get_def)
  have h: "\<not> truthy (dict_get default_params ''DDDDD'' JNull)
           \<or> \<not> truthy (dict_get default_params ''upass'' JNull)"
    by (simp add: e)
  show ?thesis
    using do_login_missing_credentials [OF p h, of "sample_login_env 1700000000000"] p e
    by auto
qed

subsection \<open>GET and everything else\<close>

text \<open>
  C10: with the credentials present and the configured method a string \<open>m\<close> (a missing
  method reads as \<open>GET\<close>), \<^verbatim>\<open>do_login\<close> sends exactly one request. When the upper-cased
  method is \<open>GET\<close> the parameters go into the query string of a GET request; in every other
  case they go into the body of a POST request that carries the form content type.
\<close>

theorem do_login_encoding:
  assumes "dict_get cfg ''params'' (JObj []) = JObj d"
    and "truthy (dict_get d ''DDDDD'' JNull)"
    and "truthy (dict_get d ''upass'' JNull)"
    and "dict_get cfg ''method'' (JStr ''GET'') = JStr m"
  shows "\<exists>req. http_calls (fst (do_login env cfg)) = [req]
           \<and> req_url req = build_login_url cfg
           \<and> (if str_upper m = ''GET''
               then req_method req = ''GET''
                    \<and> req_query req = Some (AList.update ''v'' (volatile_value (clock_ms env)) d)
                    \<and> req_data req = None
                    \<and> req_headers req = [(''User-Agent'', USER_AGENT)]
               else req_method req = ''POST''
                    \<and> req_query req = None
                    \<and> req_data req = Some (AList.update ''v'' (volatile_value (clock_ms env)) d)
                    \<and> req_headers req = [(''Content-Type'', ''application/x-www-form-urlencoded''),
                                         (''User-Agent'', USER_AGENT)])"
  unfolding do_login_http_calls [OF assms]
  by (simp add: get_request_def post_request_def)

text \<open>The method \<open>put\<close> is neither GET nor POST: the request goes out as a POST.\<close>

theorem do_login_encoding_witness:
  "dict_get (AList.update ''method'' (JStr ''put'') sample_config) ''params'' (JObj []) = JObj sample_params
   \<and> truthy (dict_get sample_params ''DDDDD'' JNull)
   \<and> truthy (dict_get sample_params ''upass'' JNull)
   \<and> dict_get (AList.update ''method'' (JStr ''put'') sample_config) ''method'' (JStr ''GET'') = JStr ''put''
   \<and> str_upper ''put'' \<noteq> ''GET''
   \<and> (\<exists>req. http_calls (fst (do_login (sample_login_env 1700000001234)
                                (AList.update ''method'' (JStr ''put'') sample_config))) = [req]
           \<and> req_method req = ''POST'' \<and> req_query req = None
           \<and> req_data req = Some (sample_params @ [(''v'', JStr ''1234'')])
           \<and> req_headers req = [(''Content-Type'', ''application/x-www-form-urlencoded''),
                                 (''User-Agent'', ''Mozilla/5.0'')])"
proof -
  let ?cfg = "AList.update ''method'' (JStr ''put'') sample_config"
  have p: "dict_get ?cfg ''params'' (JObj []) = JObj sample_params"
    by (simp add: sample_config_def default_config_def dict_get_def)
  have m: "dict_get ?cfg ''method'' (JStr ''GET'') = JStr ''put''"
    by (simp add: sample_config_def default_config_def dict_get_def)
  have up: "str_upper ''put'' \<noteq> ''GET''"
    by (simp add: str_upper_def upper_char_def)
  have v: "volatile_value 1700000001234 = JStr ''1234''"
    by (simp add: volatile_value_def int_str_def nat_str.simps digit_char_def)
  have a: "AList.update ''v'' (JStr ''1234'') sample_params = sample_params @ [(''v'', JStr ''1234'')]"
    by (simp add: sample_params_def default_params_def)
  show ?thesis
    using do_login_encoding [OF p sample_params_credentials m, of "sample_login_env 1700000001234"]
      p sample_params_credentials m up
    by (auto simp: v a sample_login_env_def USER_AGENT_def)
qed

subsection \<open>The volatile parameter\<close>

lemma update_same_key_eq: "AList.update k x d = AList.update k y d \<longleftrightarrow> x = y"
proof
  assume "AList.update k x d = AList.update k y d"
  then have "map_of (AList.update k x d) k = map_of (AList.update k y d) k" by simp
  then show "x = y" by (simp add: update_conv')
qed simp

lemma update_absent: "map_of d k = None \<Longrightarrow> AList.update k v d = d @ [(k, v)]"
  by (induction d) (auto split: if_splits)

lemma request_params_sent:
  "request_params (if c then get_request url ps else post_request url ps) = ps"
  by (simp add: request_params_def get_request_def post_request_def)

text \<open>
  C8, as stated, at a concrete input: two attempts ten seconds apart, with the millisecond
  clocks 1700000000000 and 1700000010000. Both send \<open>v = 0\<close>, and the two parameter sets
  are the same.
\<close>

theorem volatile_parameter_repeats:
  "clock_ms (sample_login_env 1700000000000) \<noteq> clock_ms (sample_login_env 1700000010000)
   \<and> map request_params (http_calls (fst (do_login (sample_login_env 1700000000000) sample_config)))
       = [sample_params @ [(''v'', JStr ''0'')]]
   \<and> map request_params (http_calls (fst (do_login (sample_login_env 1700000010000) sample_config)))
       = [sample_params @ [(''v'', JStr ''0'')]]"
proof -
  have v: "volatile_value 1700000000000 = JStr ''0''" "volatile_value 1700000010000 = JStr ''0''"
    by (simp_all add: volatile_value_def int_str_def nat_str.simps digit_char_def)
  have a: "AList.update ''v'' (JStr ''0'') sample_params = sample_params @ [(''v'', JStr ''0'')]"
    by (simp add: sample_params_def default_params_def)
  have c: "\<And>now. clock_ms (sample_login_env now) = now"
    by (simp add: sample_login_env_def)
  show ?thesis
    unfolding do_login_http_calls [OF sample_config_params sample_params_credentials sample_config_method]
    by (simp add: c v a request_params_sent del: One_nat_def)
qed

text \<open>
  C8, amended: for every attempt that passes the credential check, the parameters of the
  request are the configured params with \<open>v\<close> set to the decimal string of the
  millisecond clock modulo 10000; where the configured params have no \<open>v\<close> this is one
  more parameter at the end, otherwise the configured \<open>v\<close> is replaced. Two attempts under
  the same configuration send the same parameters exactly when their clocks agree modulo
  10000. On the store, the dict the configuration holds is left as it was: the update goes
  to the copy.
\<close>

theorem do_login_volatile_parameter:
  assumes "dict_get cfg ''params'' (JObj []) = JObj d"
    and "truthy (dict_get d ''DDDDD'' JNull)"
    and "truthy (dict_get d ''upass'' JNull)"
    and "dict_get cfg ''method'' (JStr ''GET'') = JStr m"
  shows "map request_params (http_calls (fst (do_login env cfg)))
           = [AList.update ''v'' (JStr (int_str (clock_ms env mod 10000))) d]
         \<and> (map_of d ''v'' = None \<longrightarrow>
              AList.update ''v'' (JStr (int_str (clock_ms env mod 10000))) d
                = d @ [(''v'', JStr (int_str (clock_ms env mod 10000)))])
         \<and> (\<forall>env'. map request_params (http_calls (fst (do_login env' cfg)))
                      = map request_params (http_calls (fst (do_login env cfg)))
                    \<longleftrightarrow> clock_ms env' mod 10000 = clock_ms env mod 10000)
         \<and> (\<forall>h a. a < length h \<longrightarrow>
                fst (login_params h a (clock_ms env)) ! a = h ! a
                \<and> fst (login_params h a (clock_ms env)) ! snd (login_params h a (clock_ms env))
                    = AList.update ''v'' (JStr (int_str (clock_ms env mod 10000))) (h ! a))"
proof -
  have sent: "\<And>e. map request_params (http_calls (fst (do_login e cfg)))
                 = [AList.update ''v'' (volatile_value (clock_ms e)) d]"
    unfolding do_login_http_calls [OF assms] by (simp add: request_params_sent)
  have 1: "map request_params (http_calls (fst (do_login env cfg)))
           = [AList.update ''v'' (JStr (int_str (clock_ms env mod 10000))) d]"
    using sent [of env] by (simp add: volatile_value_def)
  have 2: "map_of d ''v'' = None \<longrightarrow>
              AList.update ''v'' (JStr (int_str (clock_ms env mod 10000))) d
                = d @ [(''v'', JStr (int_str (clock_ms env mod 10000)))]"
    by (simp add: update_absent)
  have 3: "\<forall>env'. map request_params (http_calls (fst (do_login env' cfg)))
                      = map request_params (http_calls (fst (do_login env cfg)))
                    \<longleftrightarrow> clock_ms env' mod 10000 = clock_ms env mod 10000"
    by (simp add: sent update_same_key_eq volatile_value_eq_iff)
  have 4: "\<forall>h a. a < length h \<longrightarrow>
                fst (login_params h a (clock_ms env)) ! a = h ! a
                \<and> fst (login_params h a (clock_ms env)) ! snd (login_params h a (clock_ms env))
                    = AList.update ''v'' (JStr (int_str (clock_ms env mod 10000))) (h ! a)"
    using login_params_store(1,2) by (simp add: volatile_value_def)
  from 1 2 3 4 show ?thesis by blast
qed

text \<open>
  An attempt at clock 1700000001234 sends \<open>v = 1234\<close> after the configured parameters,
  as does one ten seconds later.
\<close>

theorem do_login_volatile_parameter_witness:
  "dict_get sample_config ''params'' (JObj []) = JObj sample_params
   \<and> truthy (dict_get sample_params ''DDDDD'' JNull)
   \<and> truthy (dict_get sample_params ''upass'' JNull)
   \<and> dict_get sample_config ''method'' (JStr ''GET'') = JStr ''GET''
   \<and> map_of sample_params ''v'' = None
   \<and> (0::nat) < length [sample_params]
   \<and> map request_params (http_calls (fst (do_login (sample_login_env 1700000001234) sample_config)))
       = [sample_params @ [(''v'', JStr ''1234'')]]
   \<and> map request_params (http_calls (fst (do_login (sample_login_env 1700000011234) sample_config)))
       = map request_params (http_calls (fst (do_login (sample_login_env 1700000001234) sample_config)))
   \<and> fst (login_params [sample_params] 0 1700000001234) ! 0 = sample_params
   \<and> fst (login_params [sample_params] 0 1700000001234) ! snd (login_params [sample_params] 0 1700000001234)
       = sample_params @ [(''v'', JStr ''1234'')]"
proof -
  let ?env = "sample_login_env 1700000001234"
  have c: "\<And>now. clock_ms (sample_login_env now) = now"
    by (simp add: sample_login_env_def)
  have n: "map_of sample_params ''v'' = None"
    by (simp add: sample_params_def default_params_def)
  have l: "(0::nat) < length [sample_params]" by simp
  have v: "int_str (1700000001234 mod 10000) = ''1234''"
    by (simp add: int_str_def nat_str.simps digit_char_def)
  have g: "(1700000011234::int) mod 10000 = 1700000001234 mod 10000" by simp
  note t = do_login_volatile_parameter
             [OF sample_config_params sample_params_credentials sample_config_method, of ?env,
              unfolded c]
  from t have 1: "map request_params (http_calls (fst (do_login ?env sample_config)))
       = [AList.update ''v'' (JStr (int_str (1700000001234 mod 10000))) sample_params]" by blast
  from t n have 2: "AList.update ''v'' (JStr (int_str (1700000001234 mod 10000))) sample_params
     = sample_params @ [(''v'', JStr (int_str (1700000001234 mod 10000)))]" by blast
  from t have "map request_params (http_calls (fst (do_login (sample_login_env 1700000011234) sample_config)))
                 = map request_params (http_calls (fst (do_login ?env sample_config)))
               \<longleftrightarrow> clock_ms (sample_login_env 1700000011234) mod 10000 = 1700000001234 mod 10000"
    by blast
  then have 3: "map request_params (http_calls (fst (do_login (sample_login_env 1700000011234) sample_config)))
                 = map request_params (http_calls (fst (do_login ?env sample_config)))"
    unfolding c using g by blast
  from t l have 4: "fst (login_params [sample_params] 0 1700000001234) ! 0 = [sample_params] ! 0
     \<and> fst (login_params [sample_params] 0 1700000001234) ! snd (login_params [sample_params] 0 1700000001234)
         = AList.update ''v'' (JStr (int_str (1700000001234 mod 10000))) ([sample_params] ! 0)"
    by blast
  show ?thesis
    using sample_config_params sample_params_credentials sample_config_method n l 1 2 3 4
    unfolding v by simp
qed

section \<open>The monitor loop\<close>

subsection \<open>Effects of a login attempt and of a probe\<close>

lemma http_result_of_login_effects: "list_all login_effect (fst (http_result_of out))"
  by (cases out) auto

lemma make_http_request_login_effects:
  "list_all login_effect (fst (make_http_request uo method url ps))"
  by (simp add: make_http_request_eval Let_def http_result_of_login_effects)

lemma login_attempt_login_effects: "list_all login_effect (fst (login_attempt env cfg))"
  by (auto simp: login_attempt_def Let_def make_http_request_eval http_result_of_login_effects
           split: sum.splits jval.splits prod.splits)

lemma do_login_login_effects: "list_all login_effect (fst (do_login env cfg))"
  by (auto simp: do_login_def login_attempt_login_effects split: sum.splits)

lemma login_effects_no_calls: "list_all login_effect fx \<Longrightarrow> login_calls fx = 0"
  by (induction fx) (auto simp: login_calls_def elim: login_effect.elims)

lemma login_effects_no_sleeps: "list_all login_effect fx \<Longrightarrow> sleeps fx = []"
  by (induction fx rule: sleeps.induct) auto

lemma login_effects_no_probes: "list_all login_effect fx \<Longrightarrow> probes fx = 0"
  by (induction fx rule: probes.induct) auto

lemma login_calls_append: "login_calls (xs @ ys) = login_calls xs + login_calls ys"
  by (simp add: login_calls_def)

lemma sleeps_append: "sleeps (xs @ ys) = sleeps xs @ sleeps ys"
  by (induction xs rule: sleeps.induct) auto

lemma probes_append: "probes (xs @ ys) = probes xs + probes ys"
  by (induction xs rule: probes.induct) auto

text \<open>A failed probe, as the loop sees it.\<close>

lemma run_ping_failed:
  assumes "probe_fails env"
  shows "\<exists>fx r. run_ping host timeout (ping_proc env) = (Run_ping host timeout # fx, Inr r)
           \<and> \<not> pr_success r \<and> login_calls fx = 0 \<and> sleeps fx = [] \<and> probes fx = 0"
  using assms
  by (cases "(host, timeout, ping_proc env)" rule: run_ping.cases)
     (auto simp: probe_fails_def login_calls_def)

lemma run_ping_succeeded:
  "run_ping host timeout (Exit_code 0)
     = ([Run_ping host timeout], Inr \<lparr>pr_host = host, pr_success = True, pr_rc = 0, pr_error = None\<rparr>)"
  by simp

subsection \<open>One cycle, case by case\<close>

lemma login_calls_simps:
  "login_calls [] = 0"
  "login_calls (e # fx) = (if e = Call_do_login then 1 else 0) + login_calls fx"
  by (simp_all add: login_calls_def)

lemma cycle_below_threshold:
  assumes s: "read_settings P (config env) = Inr s"
    and f: "probe_fails env"
    and b: "cf + 1 < s_threshold s"
    and i: "interval_sleep env = None"
  shows "\<exists>fx. monitor_cycle P env cf = (fx, Inr (cf + 1))
           \<and> login_calls fx = 0 \<and> sleeps fx = [s_interval s] \<and> probes fx = 1"
proof -
  from run_ping_failed [OF f, of "s_host s" "s_timeout s"]
  obtain fx r where rp: "run_ping (s_host s) (s_timeout s) (ping_proc env)
                           = (Run_ping (s_host s) (s_timeout s) # fx, Inr r)"
    and r: "\<not> pr_success r" and fx: "login_calls fx = 0" "sleeps fx = []" "probes fx = 0"
    by blast
  from b have nb: "\<not> s_threshold s \<le> cf + 1" by simp
  have "monitor_cycle P env cf =
          (Run_ping (s_host s) (s_timeout s) # fx
             @ [Emit_ping_status (s_host s) False (cf + 1) (ping_clock env),
                Log Warning ''Ping failure {consecutive_failures}/{threshold}'',
                Sleep (s_interval s)],
           Inr (cf + 1))"
    by (simp add: monitor_cycle_def s rp r nb i sleep_then_def Let_def)
  then show ?thesis
    using fx by (simp add: login_calls_append sleeps_append probes_append login_calls_simps)
qed

lemma cycle_at_threshold:
  assumes s: "read_settings P (config env) = Inr s"
    and f: "probe_fails env"
    and b: "s_threshold s \<le> cf + 1"
    and c: "remediation_completes env"
    and i: "interval_sleep env = None"
  shows "\<exists>pre. monitor_cycle P env cf = (pre @ [Sleep (s_backoff s), Sleep (s_interval s)], Inr 0)
           \<and> login_calls pre = 1 \<and> sleeps pre = [] \<and> probes pre = 1"
proof -
  from run_ping_failed [OF f, of "s_host s" "s_timeout s"]
  obtain fx r where rp: "run_ping (s_host s) (s_timeout s) (ping_proc env)
                           = (Run_ping (s_host s) (s_timeout s) # fx, Inr r)"
    and r: "\<not> pr_success r" and fx: "login_calls fx = 0" "sleeps fx = []" "probes fx = 0"
    by blast
  from c obtain lr where lr: "snd (do_login (login_world env) (login_config env)) = Inr lr"
    and bs: "backoff_sleep env = None"
    by (auto simp: remediation_completes_def login_returns_def split: sum.splits)
  define lfx where "lfx = fst (do_login (login_world env) (login_config env))"
  have dl: "do_login (login_world env) (login_config env) = (lfx, Inr lr)"
    using lr by (simp add: lfx_def prod_eq_iff)
  have le: "list_all login_effect lfx"
    unfolding lfx_def by (rule do_login_login_effects)
  have rem: "remediate env s =
      (Log Warning ''Failure threshold reached, attempting login'' # Call_do_login # lfx
         @ [Sleep (s_backoff s)], Inr 0)"
    by (simp add: remediate_def dl bs sleep_then_def)
  define pre where "pre = Run_ping (s_host s) (s_timeout s) # fx
             @ [Emit_ping_status (s_host s) False (cf + 1) (ping_clock env),
                Log Warning ''Ping failure {consecutive_failures}/{threshold}'',
                Log Warning ''Failure threshold reached, attempting login'', Call_do_login]
             @ lfx"
  have "monitor_cycle P env cf = (pre @ [Sleep (s_backoff s), Sleep (s_interval s)], Inr 0)"
    by (simp add: monitor_cycle_def s rp r b rem i sleep_then_def Let_def pre_def)
  moreover have "login_calls pre = 1" "sleeps pre = []" "probes pre = 1"
    using fx le
    by (simp_all add: pre_def login_calls_append sleeps_append probes_append login_calls_simps
          login_effects_no_calls login_effects_no_sleeps login_effects_no_probes)
  ultimately show ?thesis by blast
qed

lemma cycle_success:
  assumes s: "read_settings P (config env) = Inr s"
    and p: "ping_proc env = Exit_code 0"
    and i: "interval_sleep env = None"
  shows "monitor_cycle P env cf =
           (Run_ping (s_host s) (s_timeout s)
              # (if cf > 0 then [Log Info ''Network connectivity restored''] else [])
              @ [Emit_ping_status (s_host s) True (if cf > 0 then 0 else cf) (ping_clock env),
                 Sleep (s_interval s)],
            Inr (if cf > 0 then 0 else cf))"
  by (simp add: monitor_cycle_def s p i sleep_then_def Let_def)

lemma monitor_loop_append:
  "monitor_loop P (xs @ ys) cf =
     (case monitor_loop P xs cf of
        (fx, Looping c) \<Rightarrow> (let (fx', st) = monitor_loop P ys c in (fx @ fx', st))
      | (fx, Returned) \<Rightarrow> (fx, Returned))"
  by (induction xs arbitrary: cf)
     (auto split: prod.splits sum.splits loop_state.splits)

subsection \<open>Settings and runs below the threshold\<close>

lemma settings_readableE:
  assumes "settings_readable P cfg"
  obtains s where "read_settings P cfg = Inr s"
  using assms by (auto simp: settings_readable_def split: sum.splits)

lemma read_settings_fields:
  assumes "read_settings P cfg = Inr s"
  shows "int_setting P cfg ''ping_interval_sec'' 60 = Inr (s_interval s)"
    and "int_setting P cfg ''ping_timeout_sec'' 2 = Inr (s_timeout s)"
    and "int_setting P cfg ''consecutive_failures_threshold'' 3 = Inr (s_threshold s)"
    and "int_setting P cfg ''backoff_attempt_sec'' 60 = Inr (s_backoff s)"
  using assms by (auto simp: read_settings_def Let_def split: sum.splits)

lemma int_setting_configured:
  assumes "dict_get cfg k (JInt dflt) = JInt n" and "n \<noteq> 0"
  shows "int_setting P cfg k dflt = Inr n"
  using assms by (simp add: int_setting_def py_or_def)

lemma threshold_configured:
  assumes "read_settings P cfg = Inr s"
    and "dict_get cfg ''consecutive_failures_threshold'' (JInt 3) = JInt t" and "t \<noteq> 0"
  shows "s_threshold s = t"
  using read_settings_fields(3) [OF assms(1)] int_setting_configured [OF assms(2,3), of P]
  by simp

lemma run_below_threshold:
  assumes "\<forall>e\<in>set envs. dict_get (config e) ''consecutive_failures_threshold'' (JInt 3) = JInt t
                          \<and> settings_readable P (config e) \<and> probe_fails e
                          \<and> interval_sleep e = None"
    and "c + int (length envs) < t" and "0 \<le> c"
  shows "snd (monitor_loop P envs c) = Looping (c + int (length envs))
         \<and> login_calls (fst (monitor_loop P envs c)) = 0
         \<and> probes (fst (monitor_loop P envs c)) = length envs"
  using assms
proof (induction envs arbitrary: c)
  case Nil
  then show ?case by (simp add: login_calls_simps)
next
  case (Cons e envs)
  from Cons.prems(1) have th: "dict_get (config e) ''consecutive_failures_threshold'' (JInt 3) = JInt t"
    and sr: "settings_readable P (config e)" and pf: "probe_fails e"
    and sl: "interval_sleep e = None" by simp_all
  from sr obtain s where s: "read_settings P (config e) = Inr s" by (rule settings_readableE)
  from Cons.prems(2,3) have "t \<noteq> 0" by simp
  with s th have t: "s_threshold s = t" by (rule threshold_configured)
  from Cons.prems(2) have "c + 1 < s_threshold s" by (simp add: t)
  from cycle_below_threshold [OF s pf this sl]
  obtain fx where cyc: "monitor_cycle P e c = (fx, Inr (c + 1))"
    and fx: "login_calls fx = 0" "probes fx = 1" by blast
  have "\<forall>e\<in>set envs. dict_get (config e) ''consecutive_failures_threshold'' (JInt 3) = JInt t
                          \<and> settings_readable P (config e) \<and> probe_fails e
                          \<and> interval_sleep e = None"
    using Cons.prems(1) by simp
  moreover have "(c + 1) + int (length envs) < t" using Cons.prems(2) by simp
  moreover have "0 \<le> c + 1" using Cons.prems(3) by simp
  ultimately have ih: "snd (monitor_loop P envs (c + 1)) = Looping ((c + 1) + int (length envs))
         \<and> login_calls (fst (monitor_loop P envs (c + 1))) = 0
         \<and> probes (fst (monitor_loop P envs (c + 1))) = length envs"
    by (rule Cons.IH)
  obtain fx' st where run: "monitor_loop P envs (c + 1) = (fx', st)"
    by (cases "monitor_loop P envs (c + 1)")
  from ih have "st = Looping (c + 1 + int (length envs))" "login_calls fx' = 0"
    "probes fx' = length envs" by (simp_all add: run)
  then show ?case
    using fx by (simp add: cyc run login_calls_append probes_append add.assoc)
qed

subsection \<open>Remediation fires on the threshold\<close>

text \<open>
  C4: let the threshold \<open>t\<close> be at least 1 and let the loop, with its counter at 0, run
  through \<open>t\<close> cycles whose configuration holds the threshold \<open>t\<close> and whose probe fails
  (no sleep being cut short, and the login of the last cycle returning). Then
  \<^verbatim>\<open>do_login\<close> is called exactly once in the run, none of the first \<open>t - 1\<close> cycles calls
  it, so the call is in the cycle of the \<open>t\<close>-th failure, and the counter is 0 at the
  end of that cycle.
\<close>

theorem remediation_on_threshold:
  assumes "1 \<le> t" and "int (length envs) = t"
    and "\<forall>e\<in>set envs. dict_get (config e) ''consecutive_failures_threshold'' (JInt 3) = JInt t
                          \<and> settings_readable P (config e) \<and> probe_fails e
                          \<and> interval_sleep e = None"
    and "remediation_completes (last envs)"
  shows "snd (monitor_loop P envs 0) = Looping 0
         \<and> login_calls (fst (monitor_loop P envs 0)) = 1
         \<and> snd (monitor_loop P (butlast envs) 0) = Looping (t - 1)
         \<and> login_calls (fst (monitor_loop P (butlast envs) 0)) = 0"
proof -
  from assms(1,2) have ne: "envs \<noteq> []" by auto
  then have split: "envs = butlast envs @ [last envs]" by simp
  from ne have "0 < length envs" by simp
  then have "int (length envs - 1) = int (length envs) - 1" by linarith
  then have len: "int (length (butlast envs)) = t - 1" using assms(2) by simp
  have hb: "\<forall>e\<in>set (butlast envs).
              dict_get (config e) ''consecutive_failures_threshold'' (JInt 3) = JInt t
              \<and> settings_readable P (config e) \<and> probe_fails e \<and> interval_sleep e = None"
    using assms(3) by (meson in_set_butlastD)
  have "0 + int (length (butlast envs)) < t" using len by simp
  from run_below_threshold [OF hb this]
  have b1: "snd (monitor_loop P (butlast envs) 0) = Looping (t - 1)"
    and b2: "login_calls (fst (monitor_loop P (butlast envs) 0)) = 0"
    using len by simp_all
  from ne have "last envs \<in> set envs" by simp
  with assms(3) have th: "dict_get (config (last envs)) ''consecutive_failures_threshold'' (JInt 3) = JInt t"
    and sr: "settings_readable P (config (last envs))" and pf: "probe_fails (last envs)"
    and sl: "interval_sleep (last envs) = None" by blast+
  from sr obtain s where s: "read_settings P (config (last envs)) = Inr s"
    by (rule settings_readableE)
  from assms(1) have "t \<noteq> 0" by simp
  with s th have t: "s_threshold s = t" by (rule threshold_configured)
  have "s_threshold s \<le> (t - 1) + 1" by (simp add: t)
  from cycle_at_threshold [OF s pf this assms(4) sl]
  obtain pre where cyc: "monitor_cycle P (last envs) (t - 1)
                           = (pre @ [Sleep (s_backoff s), Sleep (s_interval s)], Inr 0)"
    and pre: "login_calls pre = 1" by blast
  obtain fx where run: "monitor_loop P (butlast envs) 0 = (fx, Looping (t - 1))"
    using b1 by (cases "monitor_loop P (butlast envs) 0") simp
  have "monitor_loop P (butlast envs @ [last envs]) 0
          = (fx @ pre @ [Sleep (s_backoff s), Sleep (s_interval s)], Looping 0)"
    by (simp add: monitor_loop_append run cyc)
  with split have whole: "monitor_loop P envs 0
          = (fx @ pre @ [Sleep (s_backoff s), Sleep (s_interval s)], Looping 0)" by simp
  have "login_calls fx = 0" using b2 run by simp
  with pre have "login_calls (fst (monitor_loop P envs 0)) = 1"
    by (simp add: whole login_calls_append login_calls_simps)
  with whole b1 b2 show ?thesis by simp
qed

lemma login_success_str:
  "login_success (JStr chk) res
     = Inr (hr_status res = 200 \<and> (chk = [] \<or> str_contains chk (hr_body res)))"
  by (auto simp: login_success_def)

lemma do_login_returns:
  assumes "dict_get cfg ''params'' (JObj []) = JObj d"
    and "truthy (dict_get d ''DDDDD'' JNull)"
    and "truthy (dict_get d ''upass'' JNull)"
    and "dict_get cfg ''method'' (JStr ''GET'') = JStr m"
    and "dict_get cfg ''success_check_string'' (JStr []) = JStr chk"
  shows "\<exists>r. snd (do_login env cfg) = Inr r"
  unfolding do_login_valid [OF assms(1-3)] login_attempt_eval [OF assms(1) assms(4)] assms(5)
  by (simp add: Let_def login_success_str)

lemma sample_config_check:
  "dict_get sample_config ''success_check_string'' (JStr []) = JStr []"
  by (simp add: sample_config_def default_config_def dict_get_def)

lemma sample_cycle_fields:
  "config (sample_cycle cfg rc) = cfg"
  "ping_proc (sample_cycle cfg rc) = Exit_code rc"
  "login_config (sample_cycle cfg rc) = cfg"
  "login_world (sample_cycle cfg rc) = sample_login_env 1700000000000"
  "backoff_sleep (sample_cycle cfg rc) = None"
  "interval_sleep (sample_cycle cfg rc) = None"
  by (simp_all add: sample_cycle_def)

lemma sample_settings:
  "read_settings no_numeric_strings sample_config =
     Inr \<lparr>s_host = JStr ''8.8.8.8'', s_interval = 60, s_timeout = 2, s_threshold = 3,
          s_backoff = 60\<rparr>"
  by (simp add: read_settings_def int_setting_def py_or_def dict_get_def sample_config_def
        default_config_def DEFAULT_PING_TARGET_def)

lemma sample_cycle_fails:
  "dict_get (config (sample_cycle sample_config 1)) ''consecutive_failures_threshold'' (JInt 3) = JInt 3"
  "settings_readable no_numeric_strings (config (sample_cycle sample_config 1))"
  "probe_fails (sample_cycle sample_config 1)"
  "interval_sleep (sample_cycle sample_config 1) = None"
  by (simp_all add: sample_cycle_fields settings_readable_def sample_settings probe_fails_def)
     (simp add: dict_get_def sample_config_def default_config_def)

lemma sample_remediation_completes:
  "remediation_completes (sample_cycle sample_config rc)"
  using do_login_returns [OF sample_config_params sample_params_credentials sample_config_method
          sample_config_check, of "sample_login_env 1700000000000"]
  by (auto simp: remediation_completes_def login_returns_def sample_cycle_fields)

text \<open>
  The shipped threshold 3 and an unreachable target: the third cycle calls \<^verbatim>\<open>do_login\<close>,
  the first two do not.
\<close>

theorem remediation_on_threshold_witness:
  "(1::int) \<le> 3
   \<and> int (length [sample_cycle sample_config 1, sample_cycle sample_config 1, sample_cycle sample_config 1]) = 3
   \<and> dict_get (config (sample_cycle sample_config 1)) ''consecutive_failures_threshold'' (JInt 3) = JInt 3
   \<and> settings_readable no_numeric_strings (config (sample_cycle sample_config 1))
   \<and> probe_fails (sample_cycle sample_config 1)
   \<and> interval_sleep (sample_cycle sample_config 1) = None
   \<and> remediation_completes (sample_cycle sample_config 1)
   \<and> snd (monitor_loop no_numeric_strings [sample_cycle sample_config 1, sample_cycle sample_config 1, sample_cycle sample_config 1] 0) = Looping 0
   \<and> login_calls (fst (monitor_loop no_numeric_strings [sample_cycle sample_config 1, sample_cycle sample_config 1, sample_cycle sample_config 1] 0)) = 1
   \<and> snd (monitor_loop no_numeric_strings [sample_cycle sample_config 1, sample_cycle sample_config 1] 0) = Looping 2
   \<and> login_calls (fst (monitor_loop no_numeric_strings [sample_cycle sample_config 1, sample_cycle sample_config 1] 0)) = 0"
proof -
  let ?c = "sample_cycle sample_config 1"
  have t: "(1::int) \<le> 3" by simp
  have l: "int (length [?c, ?c, ?c]) = 3" by simp
  have a: "\<forall>e\<in>set [?c, ?c, ?c].
             dict_get (config e) ''consecutive_failures_threshold'' (JInt 3) = JInt 3
             \<and> settings_readable no_numeric_strings (config e) \<and> probe_fails e
             \<and> interval_sleep e = None"
    using sample_cycle_fails by simp
  have r: "remediation_completes (last [?c, ?c, ?c])"
    by (simp add: sample_remediation_completes)
  have b: "butlast [?c, ?c, ?c] = [?c, ?c]"
    by simp
  show ?thesis
    using remediation_on_threshold [OF t l a r] sample_cycle_fails sample_remediation_completes [of 1]
    unfolding b by simp
qed

subsection \<open>What a completed cycle tells about its environment\<close>

lemma monitor_loop_effects_Cons:
  "\<exists>fx. fst (monitor_loop P (env # envs) cf) = fst (monitor_cycle P env cf) @ fx"
  by (auto split: prod.splits sum.splits)

lemma cycle_starts_with_probe:
  assumes "read_settings P (config env) = Inr s"
  shows "\<exists>fx. fst (monitor_cycle P env cf) = Run_ping (s_host s) (s_timeout s) # fx"
  by (cases "(s_host s, s_timeout s, ping_proc env)" rule: run_ping.cases)
     (auto simp: monitor_cycle_def assms Let_def split: prod.splits sum.splits)

lemma cycle_returns:
  assumes "read_settings P (config env) = Inr s"
    and "monitor_cycle P env cf = (fx, Inr cf')"
  shows "interval_sleep env = None"
    and "ping_proc env = Exit_code 0 \<or> probe_fails env"
    and "ping_proc env \<noteq> Exit_code 0 \<Longrightarrow> s_threshold s \<le> cf + 1 \<Longrightarrow> remediation_completes env"
  using assms(2)
  by (cases "(s_host s, s_timeout s, ping_proc env)" rule: run_ping.cases;
      auto simp: monitor_cycle_def assms(1) Let_def sleep_then_def remediate_def probe_fails_def
          remediation_completes_def login_returns_def
        split: prod.splits sum.splits option.splits if_splits)+

subsection \<open>Two sleeps after a remediation\<close>

text \<open>
  C5: in a cycle that triggers the remediation (the probe fails and the counter reaches the
  threshold), with \<^verbatim>\<open>backoff_attempt_sec\<close> and \<^verbatim>\<open>ping_interval_sec\<close> configured as the
  positive integers \<open>b\<close> and \<open>i\<close>, and with the login returning and no sleep cut short,
  the effects of the loop are: the probe and the login with no sleep among them, then the
  sleep of \<open>b\<close> seconds, then the sleep of \<open>i\<close> seconds, then the next cycle, which
  opens with its probe. The sleeps of the cycle add up to \<open>b + i\<close>.
\<close>

theorem backoff_then_interval:
  assumes "read_settings P (config env) = Inr s"
    and "dict_get (config env) ''backoff_attempt_sec'' (JInt 60) = JInt b" and "0 < b"
    and "dict_get (config env) ''ping_interval_sec'' (JInt 60) = JInt i" and "0 < i"
    and "probe_fails env" and "s_threshold s \<le> cf + 1"
    and "remediation_completes env" and "interval_sleep env = None"
  shows "\<exists>pre. fst (monitor_loop P (env # envs) cf)
                  = pre @ [Sleep b, Sleep i] @ fst (monitor_loop P envs 0)
           \<and> probes pre = 1 \<and> login_calls pre = 1 \<and> sleeps pre = []
           \<and> sum_list (sleeps (fst (monitor_cycle P env cf))) = b + i
           \<and> (\<forall>env' rest s'. envs = env' # rest \<and> read_settings P (config env') = Inr s' \<longrightarrow>
                 (\<exists>fx. fst (monitor_loop P envs 0) = Run_ping (s_host s') (s_timeout s') # fx))"
proof -
  from assms(3) have "b \<noteq> 0" by simp
  with assms(2) have "int_setting P (config env) ''backoff_attempt_sec'' 60 = Inr b"
    by (rule int_setting_configured)
  with read_settings_fields(4) [OF assms(1)] have b: "s_backoff s = b" by simp
  from assms(5) have "i \<noteq> 0" by simp
  with assms(4) have "int_setting P (config env) ''ping_interval_sec'' 60 = Inr i"
    by (rule int_setting_configured)
  with read_settings_fields(1) [OF assms(1)] have i: "s_interval s = i" by simp
  from cycle_at_threshold [OF assms(1) assms(6) assms(7) assms(8) assms(9)]
  obtain pre where cyc: "monitor_cycle P env cf = (pre @ [Sleep b, Sleep i], Inr 0)"
    and pre: "login_calls pre = 1" "sleeps pre = []" "probes pre = 1"
    unfolding b i by blast
  have run: "fst (monitor_loop P (env # envs) cf)
               = pre @ [Sleep b, Sleep i] @ fst (monitor_loop P envs 0)"
    by (simp add: cyc split: prod.splits)
  have total: "sum_list (sleeps (fst (monitor_cycle P env cf))) = b + i"
    by (simp add: cyc sleeps_append pre)
  have "\<exists>fx. fst (monitor_loop P envs 0) = Run_ping (s_host s') (s_timeout s') # fx"
    if "envs = env' # rest" and s': "read_settings P (config env') = Inr s'" for env' rest s'
  proof -
    from monitor_loop_effects_Cons [of P env' rest 0]
    obtain fx1 where "fst (monitor_loop P (env' # rest) 0) = fst (monitor_cycle P env' 0) @ fx1"
      by blast
    moreover from cycle_starts_with_probe [OF s', of 0]
    obtain fx2 where "fst (monitor_cycle P env' 0) = Run_ping (s_host s') (s_timeout s') # fx2"
      by blast
    ultimately show ?thesis using that(1) by simp
  qed
  with run total pre show ?thesis by blast
qed

lemma sample_config_sleeps:
  "dict_get sample_config ''backoff_attempt_sec'' (JInt 60) = JInt 60"
  "dict_get sample_config ''ping_interval_sec'' (JInt 60) = JInt 60"
  by (simp_all add: dict_get_def sample_config_def default_config_def)

text \<open>
  The shipped configuration, counter at 2, a failing probe: the cycle sleeps 60 and 60
  seconds and the next cycle begins with a probe.
\<close>

theorem backoff_then_interval_witness:
  "read_settings no_numeric_strings (config (sample_cycle sample_config 1))
     = Inr \<lparr>s_host = JStr ''8.8.8.8'', s_interval = 60, s_timeout = 2, s_threshold = 3, s_backoff = 60\<rparr>
   \<and> dict_get (config (sample_cycle sample_config 1)) ''backoff_attempt_sec'' (JInt 60) = JInt 60
   \<and> dict_get (config (sample_cycle sample_config 1)) ''ping_interval_sec'' (JInt 60) = JInt 60
   \<and> probe_fails (sample_cycle sample_config 1)
   \<and> (3::int) \<le> 2 + 1
   \<and> remediation_completes (sample_cycle sample_config 1)
   \<and> interval_sleep (sample_cycle sample_config 1) = None
   \<and> sleeps (fst (monitor_cycle no_numeric_strings (sample_cycle sample_config 1) 2)) = [60, 60]
   \<and> sum_list (sleeps (fst (monitor_cycle no_numeric_strings (sample_cycle sample_config 1) 2))) = 120
   \<and> (\<exists>pre fx. fst (monitor_loop no_numeric_strings
                       [sample_cycle sample_config 1, sample_cycle sample_config 0] 2)
                  = pre @ [Sleep 60, Sleep 60] @ Run_ping (JStr ''8.8.8.8'') 2 # fx
                \<and> probes pre = 1 \<and> login_calls pre = 1 \<and> sleeps pre = [])"
proof -
  let ?c = "sample_cycle sample_config 1"
  let ?n = "sample_cycle sample_config 0"
  let ?s = "\<lparr>s_host = JStr ''8.8.8.8'', s_interval = 60, s_timeout = 2, s_threshold = 3, s_backoff = 60\<rparr>"
  have s: "read_settings no_numeric_strings (config ?c) = Inr ?s"
    by (simp add: sample_cycle_fields sample_settings)
  have s': "read_settings no_numeric_strings (config ?n) = Inr ?s"
    by (simp add: sample_cycle_fields sample_settings)
  have b: "dict_get (config ?c) ''backoff_attempt_sec'' (JInt 60) = JInt 60"
    and i: "dict_get (config ?c) ''ping_interval_sec'' (JInt 60) = JInt 60"
    by (simp_all add: sample_cycle_fields sample_config_sleeps)
  have pos: "(0::int) < 60" by simp
  have th: "s_threshold ?s \<le> 2 + 1" by simp
  note t = backoff_then_interval [OF s b pos i pos sample_cycle_fails(3) th
             sample_remediation_completes sample_cycle_fails(4), of "[?n]"]
  then obtain pre where run: "fst (monitor_loop no_numeric_strings [?c, ?n] 2)
                  = pre @ [Sleep 60, Sleep 60] @ fst (monitor_loop no_numeric_strings [?n] 0)"
    and pre: "probes pre = 1" "login_calls pre = 1" "sleeps pre = []"
    and total: "sum_list (sleeps (fst (monitor_cycle no_numeric_strings ?c 2))) = 60 + 60"
    and nxt: "\<forall>env' rest s'. [?n] = env' # rest
                 \<and> read_settings no_numeric_strings (config env') = Inr s' \<longrightarrow>
                 (\<exists>fx. fst (monitor_loop no_numeric_strings [?n] 0)
                         = Run_ping (s_host s') (s_timeout s') # fx)"
    by blast
  from nxt s' obtain fx where fx: "fst (monitor_loop no_numeric_strings [?n] 0)
                         = Run_ping (s_host ?s) (s_timeout ?s) # fx"
    by blast
  from cycle_at_threshold [OF s sample_cycle_fails(3) th sample_remediation_completes
         sample_cycle_fails(4)]
  have sl: "sleeps (fst (monitor_cycle no_numeric_strings ?c 2)) = [60, 60]"
    by (auto simp: sleeps_append)
  have last: "\<exists>pre fx. fst (monitor_loop no_numeric_strings [?c, ?n] 2)
                  = pre @ [Sleep 60, Sleep 60] @ Run_ping (JStr ''8.8.8.8'') 2 # fx
                \<and> probes pre = 1 \<and> login_calls pre = 1 \<and> sleeps pre = []"
    using run pre fx by auto
  show ?thesis
    using s b i sample_cycle_fails(3) sample_remediation_completes [of 1] sample_cycle_fails(4)
      sl total last
    by simp
qed

subsection \<open>The failure counter\<close>

lemma cycle_counter_nonneg:
  assumes "monitor_cycle P env cf = (fx, Inr cf')" and "0 \<le> cf"
  shows "0 \<le> cf'"
proof (cases "read_settings P (config env)")
  case (Inl e)
  with assms(1) show ?thesis by (simp add: monitor_cycle_def)
next
  case (Inr s)
  note r = cycle_returns [OF Inr assms(1)]
  show ?thesis
  proof (cases "ping_proc env = Exit_code 0")
    case True
    from cycle_success [OF Inr True r(1), of cf] assms show ?thesis by (simp split: if_splits)
  next
    case False
    with r(2) have pf: "probe_fails env" by simp
    show ?thesis
    proof (cases "s_threshold s \<le> cf + 1")
      case True
      from cycle_at_threshold [OF Inr pf True r(3) [OF False True] r(1)] assms(1)
      show ?thesis by auto
    next
      case nt: False
      then have "cf + 1 < s_threshold s" by simp
      from cycle_below_threshold [OF Inr pf this r(1)] assms show ?thesis by auto
    qed
  qed
qed

lemma run_counter_nonneg:
  "monitor_loop P envs c = (fx, Looping cf) \<Longrightarrow> 0 \<le> c \<Longrightarrow> 0 \<le> cf"
proof (induction envs arbitrary: c fx)
  case Nil
  then show ?case by simp
next
  case (Cons e envs)
  obtain fx1 r where cyc: "monitor_cycle P e c = (fx1, r)" by (cases "monitor_cycle P e c")
  show ?case
  proof (cases r)
    case (Inl x)
    with Cons.prems cyc show ?thesis by simp
  next
    case (Inr c')
    with cyc Cons.prems(2) have "0 \<le> c'" by (auto intro: cycle_counter_nonneg)
    moreover from Cons.prems(1) cyc Inr
    obtain fx2 where "monitor_loop P envs c' = (fx2, Looping cf)"
      by (auto split: prod.splits)
    ultimately show ?thesis by (rule Cons.IH [rotated])
  qed
qed

text \<open>
  C9: take any run of the loop from its start that is at the top of a cycle with the
  counter \<open>cf\<close>, and let the next cycle complete with the counter \<open>cf'\<close>. Both counters
  are non-negative. After a successful probe \<open>cf'\<close> is 0. After a failed probe below the
  threshold \<open>cf'\<close> is \<open>cf + 1\<close> and \<^verbatim>\<open>do_login\<close> was not called. After a failed probe
  that reaches the threshold \<^verbatim>\<open>do_login\<close> was called once and \<open>cf'\<close> is 0. So between
  resets the counter grows by one per failed probe, and with a positive threshold it is
  below the threshold at the end of every cycle: it reaches the threshold only inside the
  cycle that remediates.
\<close>

theorem counter_invariant:
  assumes "monitor_loop P envs 0 = (fx, Looping cf)"
    and "read_settings P (config env) = Inr s"
    and "monitor_cycle P env cf = (fx', Inr cf')"
  shows "0 \<le> cf \<and> 0 \<le> cf'
         \<and> (ping_proc env = Exit_code 0 \<longrightarrow> cf' = 0 \<and> login_calls fx' = 0)
         \<and> (ping_proc env \<noteq> Exit_code 0 \<and> cf + 1 < s_threshold s \<longrightarrow>
               cf' = cf + 1 \<and> login_calls fx' = 0)
         \<and> (ping_proc env \<noteq> Exit_code 0 \<and> s_threshold s \<le> cf + 1 \<longrightarrow>
               cf' = 0 \<and> login_calls fx' = 1)
         \<and> (0 < s_threshold s \<longrightarrow> cf' < s_threshold s)"
proof -
  from assms(1) have cf: "0 \<le> cf" by (rule run_counter_nonneg) simp
  with assms(3) have cf': "0 \<le> cf'" by (rule cycle_counter_nonneg)
  note r = cycle_returns [OF assms(2) assms(3)]
  have ok: "cf' = 0 \<and> login_calls fx' = 0" if p: "ping_proc env = Exit_code 0"
    using cycle_success [OF assms(2) p r(1), of cf] assms(3) cf
    by (auto simp: login_calls_simps split: if_splits)
  have below: "cf' = cf + 1 \<and> login_calls fx' = 0"
    if "ping_proc env \<noteq> Exit_code 0" and b: "cf + 1 < s_threshold s"
  proof -
    from that(1) r(2) have "probe_fails env" by simp
    from cycle_below_threshold [OF assms(2) this b r(1)] assms(3) show ?thesis by auto
  qed
  have at: "cf' = 0 \<and> login_calls fx' = 1"
    if n: "ping_proc env \<noteq> Exit_code 0" and b: "s_threshold s \<le> cf + 1"
  proof -
    from n r(2) have "probe_fails env" by simp
    from cycle_at_threshold [OF assms(2) this b r(3) [OF n b] r(1)] assms(3)
    show ?thesis by (auto simp: login_calls_append login_calls_simps)
  qed
  have bound: "cf' < s_threshold s" if "0 < s_threshold s"
  proof (cases "ping_proc env = Exit_code 0")
    case True
    with ok that show ?thesis by simp
  next
    case False
    then show ?thesis using below at that by (cases "s_threshold s \<le> cf + 1") auto
  qed
  from cf cf' ok below at bound show ?thesis by blast
qed

text \<open>
  The shipped threshold 3. After two failed probes the counter is 2; a third failure
  remediates and leaves 0, a success leaves 0 without a login. After one failed probe a
  second failure leaves 2.
\<close>

theorem counter_invariant_witness:
  "snd (monitor_loop no_numeric_strings [sample_cycle sample_config 1, sample_cycle sample_config 1] 0)
     = Looping 2
   \<and> (\<exists>fx' cf'. monitor_cycle no_numeric_strings (sample_cycle sample_config 1) 2 = (fx', Inr cf')
         \<and> cf' = 0 \<and> login_calls fx' = 1)
   \<and> (\<exists>fx' cf'. monitor_cycle no_numeric_strings (sample_cycle sample_config 0) 2 = (fx', Inr cf')
         \<and> cf' = 0 \<and> login_calls fx' = 0)
   \<and> snd (monitor_loop no_numeric_strings [sample_cycle sample_config 1] 0) = Looping 1
   \<and> (\<exists>fx' cf'. monitor_cycle no_numeric_strings (sample_cycle sample_config 1) 1 = (fx', Inr cf')
         \<and> cf' = 2 \<and> cf' < 3 \<and> login_calls fx' = 0)"
proof -
  let ?P = no_numeric_strings
  let ?c = "sample_cycle sample_config 1"
  let ?n = "sample_cycle sample_config 0"
  let ?s = "\<lparr>s_host = JStr ''8.8.8.8'', s_interval = 60, s_timeout = 2, s_threshold = 3, s_backoff = 60\<rparr>"
  have s: "read_settings ?P (config ?c) = Inr ?s" "read_settings ?P (config ?n) = Inr ?s"
    by (simp_all add: sample_cycle_fields sample_settings)
  have pc: "ping_proc ?c \<noteq> Exit_code 0" and pn: "ping_proc ?n = Exit_code 0"
    by (simp_all add: sample_cycle_fields)
  have a2: "\<forall>e\<in>set [?c, ?c].
             dict_get (config e) ''consecutive_failures_threshold'' (JInt 3) = JInt 3
             \<and> settings_readable ?P (config e) \<and> probe_fails e \<and> interval_sleep e = None"
    and a1: "\<forall>e\<in>set [?c].
             dict_get (config e) ''consecutive_failures_threshold'' (JInt 3) = JInt 3
             \<and> settings_readable ?P (config e) \<and> probe_fails e \<and> interval_sleep e = None"
    using sample_cycle_fails by simp_all
  from run_below_threshold [OF a2] have l2: "snd (monitor_loop ?P [?c, ?c] 0) = Looping 2" by simp
  from run_below_threshold [OF a1] have l1: "snd (monitor_loop ?P [?c] 0) = Looping 1" by simp
  from l2 obtain fx2 where run2: "monitor_loop ?P [?c, ?c] 0 = (fx2, Looping 2)"
    by (cases "monitor_loop ?P [?c, ?c] 0") simp
  from l1 obtain fx1 where run1: "monitor_loop ?P [?c] 0 = (fx1, Looping 1)"
    by (cases "monitor_loop ?P [?c] 0") simp
  have th: "s_threshold ?s \<le> 2 + 1" by simp
  from cycle_at_threshold [OF s(1) sample_cycle_fails(3) th sample_remediation_completes
         sample_cycle_fails(4)]
  obtain fa ca where ca: "monitor_cycle ?P ?c 2 = (fa, Inr ca)" by blast
  from cycle_success [OF s(2) pn, of 2]
  obtain fb cb where cb: "monitor_cycle ?P ?n 2 = (fb, Inr cb)"
    by (simp add: sample_cycle_fields)
  have bl: "1 + 1 < s_threshold ?s" by simp
  from cycle_below_threshold [OF s(1) sample_cycle_fails(3) bl sample_cycle_fails(4)]
  obtain fc cc where cc: "monitor_cycle ?P ?c 1 = (fc, Inr cc)" by blast
  from counter_invariant [OF run2 s(1) ca] pc have A: "ca = 0 \<and> login_calls fa = 1" by simp
  from counter_invariant [OF run2 s(2) cb] pn have B: "cb = 0 \<and> login_calls fb = 0" by simp
  from counter_invariant [OF run1 s(1) cc] pc
  have C: "cc = 2 \<and> cc < 3 \<and> login_calls fc = 0" by simp
  from l2 l1 ca A cb B cc C show ?thesis by blast
qed

subsection \<open>A fault inside a cycle\<close>

lemma null_method_settings:
  "read_settings no_numeric_strings null_method_config =
     Inr \<lparr>s_host = JStr ''8.8.8.8'', s_interval = 60, s_timeout = 2, s_threshold = 1,
          s_backoff = 60\<rparr>"
  by (simp add: read_settings_def int_setting_def py_or_def dict_get_def null_method_config_def
        sample_config_def default_config_def DEFAULT_PING_TARGET_def)

lemma null_method_login:
  "do_login env null_method_config = ([], Inl (no_attribute ''upper''))"
proof -
  have p: "dict_get null_method_config ''params'' (JObj []) = JObj sample_params"
    by (simp add: null_method_config_def sample_config_def default_config_def dict_get_def)
  have m: "dict_get null_method_config ''method'' (JStr ''GET'') = JNull"
    by (simp add: null_method_config_def sample_config_def default_config_def dict_get_def)
  show ?thesis
    unfolding do_login_valid [OF p sample_params_credentials]
    by (simp add: login_attempt_def m)
qed

lemma fault_ends_loop:
  assumes "monitor_cycle P env cf = (fx, Inl e)" and "is_Exception e"
  shows "monitor_loop P (env # envs) cf
           = (fx @ [Log Error ''Ping monitor error: {e}'', Sleep 5], Returned)"
  using assms by (cases e) simp_all

text \<open>
  C1 on the code: the target is unreachable, the threshold is 1 and the configuration holds
  \<^verbatim>\<open>"method": null\<close>. In the first cycle the probe fails, \<^verbatim>\<open>do_login\<close> is called and
  raises \<^verbatim>\<open>AttributeError\<close>. The handler logs the error and sleeps 5 seconds, and the
  coroutine returns: the environment of a second cycle is there, but no second probe is
  made.
\<close>

theorem fault_terminates_monitor:
  "ping_monitor no_numeric_strings
     [sample_cycle null_method_config 1, sample_cycle null_method_config 1]
   = ([Log Info ''Ping monitor task started'',
       Run_ping (JStr ''8.8.8.8'') 2,
       Emit_ping_status (JStr ''8.8.8.8'') False 1 1700000000,
       Log Warning ''Ping failure {consecutive_failures}/{threshold}'',
       Log Warning ''Failure threshold reached, attempting login'',
       Call_do_login,
       Log Error ''Ping monitor error: {e}'',
       Sleep 5],
      Returned)"
proof -
  have "monitor_cycle no_numeric_strings (sample_cycle null_method_config 1) 0
          = ([Run_ping (JStr ''8.8.8.8'') 2,
              Emit_ping_status (JStr ''8.8.8.8'') False 1 1700000000,
              Log Warning ''Ping failure {consecutive_failures}/{threshold}'',
              Log Warning ''Failure threshold reached, attempting login'',
              Call_do_login],
             Inl (no_attribute ''upper''))"
    by (simp add: monitor_cycle_def sample_cycle_def null_method_settings remediate_def
          null_method_login)
  then show ?thesis
    by (simp add: ping_monitor_def no_attribute_def)
qed

section \<open>The controller\<close>

lemma handle_inv_new: "handle_inv new_plugin"
  by (simp add: handle_inv_def new_plugin_def)

lemma handle_inv_start: "handle_inv s \<Longrightarrow> handle_inv (snd (start_ping_monitor s))"
  by (auto simp: handle_inv_def start_ping_monitor_def create_monitor_task_def nth_append
           split: option.splits)

lemma nth_mark_done: "i < length bs \<Longrightarrow> bs[t := True] ! i = (i = t \<or> bs ! i)"
  by (cases "t < length bs") (auto simp: nth_list_update)

lemma handle_inv_ends: "handle_inv s \<Longrightarrow> handle_inv (s\<lparr>tasks := (tasks s)[t := True]\<rparr>)"
  by (auto simp: handle_inv_def nth_mark_done split: option.splits)

lemma handle_inv_step: "handle_inv s \<Longrightarrow> handle_inv (step s ev)"
  by (cases ev) (simp_all add: handle_inv_start handle_inv_ends)

lemma handle_inv_foldl: "handle_inv s \<Longrightarrow> handle_inv (foldl step s evs)"
  by (induction evs arbitrary: s) (simp_all add: handle_inv_step)

lemma handle_inv_run: "handle_inv (run_events evs)"
  by (simp add: run_events_def handle_inv_foldl handle_inv_new)

lemma filter_Not_unique:
  assumes "\<forall>i < length bs. \<not> bs ! i \<longrightarrow> i = t"
  shows "length (filter Not bs) \<le> 1"
  using assms
proof (induction bs arbitrary: t rule: rev_induct)
  case Nil
  then show ?case by simp
next
  case (snoc b bs)
  show ?case
  proof (cases b)
    case True
    have "\<forall>i < length bs. \<not> bs ! i \<longrightarrow> i = t"
      using snoc.prems by (auto simp: nth_append split: if_splits)
    from snoc.IH [OF this] True show ?thesis by simp
  next
    case False
    then have t: "t = length bs" using snoc.prems by (auto simp: nth_append)
    have "\<forall>i < length bs. bs ! i"
    proof (intro allI impI)
      fix i assume i: "i < length bs"
      show "bs ! i"
      proof (rule ccontr)
        assume "\<not> bs ! i"
        with snoc.prems i have "i = t" by (auto simp: nth_append)
        with t i show False by simp
      qed
    qed
    then have "filter Not bs = []" by (auto simp: filter_empty_conv in_set_conv_nth)
    with False show ?thesis by simp
  qed
qed

lemma all_done_nth: "filter Not bs = [] \<Longrightarrow> i < length bs \<Longrightarrow> bs ! i"
proof -
  assume "filter Not bs = []" and "i < length bs"
  then have "\<forall>b\<in>set bs. b" and "bs ! i \<in> set bs" by (simp_all add: filter_empty_conv)
  then show "bs ! i" by blast
qed

lemma handle_inv_active: "handle_inv s \<Longrightarrow> active_loops s \<le> 1"
proof -
  assume h: "handle_inv s"
  show ?thesis
  proof (cases "monitor_task s")
    case None
    with h have "\<forall>i < length (tasks s). \<not> tasks s ! i \<longrightarrow> i = 0"
      by (auto simp: handle_inv_def)
    then show ?thesis unfolding active_loops_def by (rule filter_Not_unique)
  next
    case (Some t)
    with h have "\<forall>i < length (tasks s). \<not> tasks s ! i \<longrightarrow> i = t"
      by (auto simp: handle_inv_def)
    then show ?thesis unfolding active_loops_def by (rule filter_Not_unique)
  qed
qed

lemma active_live_handle:
  assumes "handle_inv s" and "active_loops s \<noteq> 0"
  shows "\<exists>t. monitor_task s = Some t \<and> t < length (tasks s) \<and> \<not> tasks s ! t"
proof -
  from assms(2) have "filter Not (tasks s) \<noteq> []" by (simp add: active_loops_def)
  then obtain b where "b \<in> set (tasks s)" "\<not> b" by (auto simp: filter_empty_conv)
  then obtain i where "i < length (tasks s)" "\<not> tasks s ! i" by (auto simp: in_set_conv_nth)
  with assms(1) show ?thesis by (auto simp: handle_inv_def)
qed

text \<open>
  C6: after any sequence of calls of \<^verbatim>\<open>start_ping_monitor\<close>, with tasks ending in
  between as they may, at most one task is not done. When one is not done, a further call
  changes nothing and only logs that the monitor is already running; and after a call
  exactly one task is not done.
\<close>

theorem single_monitor:
  "active_loops (run_events evs) \<le> 1
   \<and> (active_loops (run_events evs) = 1 \<longrightarrow>
        start_ping_monitor (run_events evs)
          = ([Log Warning ''Monitor already running''], run_events evs))
   \<and> active_loops (run_events (evs @ [Start])) = 1"
proof -
  let ?s = "run_events evs"
  have h: "handle_inv ?s" by (rule handle_inv_run)
  then have 1: "active_loops ?s \<le> 1" by (rule handle_inv_active)
  have 2: "start_ping_monitor ?s = ([Log Warning ''Monitor already running''], ?s)"
    if "active_loops ?s = 1"
  proof -
    from that have "active_loops ?s \<noteq> 0" by simp
    from active_live_handle [OF h this]
    obtain t where mt: "monitor_task ?s = Some t" and nd: "\<not> tasks ?s ! t" by blast
    show ?thesis by (simp add: start_ping_monitor_def mt nd)
  qed
  have st: "run_events (evs @ [Start]) = snd (start_ping_monitor ?s)"
    by (simp add: run_events_def)
  have 3: "active_loops (run_events (evs @ [Start])) = 1"
  proof (cases "active_loops ?s = 0")
    case True
    then have all: "filter Not (tasks ?s) = []" by (simp add: active_loops_def)
    then have "\<And>t. t < length (tasks ?s) \<Longrightarrow> tasks ?s ! t"
      by (rule all_done_nth)
    with h have "snd (start_ping_monitor ?s) = snd (create_monitor_task ?s)"
      by (auto simp: start_ping_monitor_def handle_inv_def split: option.splits)
    then show ?thesis
      unfolding st using all by (simp add: create_monitor_task_def active_loops_def)
  next
    case False
    with 1 have one: "active_loops ?s = 1" by simp
    from 2 [OF one] show ?thesis unfolding st using one by simp
  qed
  from 1 2 3 show ?thesis by blast
qed

text \<open>
  Two calls in a row leave one task; after that task has ended a third call creates the
  second task, again the only one not done.
\<close>

theorem single_monitor_witness:
  "active_loops (run_events [Start]) = 1
   \<and> start_ping_monitor (run_events [Start])
       = ([Log Warning ''Monitor already running''], run_events [Start])
   \<and> tasks (run_events [Start, Start]) = [False]
   \<and> active_loops (run_events [Start, Start]) = 1
   \<and> active_loops (run_events [Start, Start, Task_ends 0]) \<le> 1
   \<and> tasks (run_events [Start, Start, Task_ends 0, Start]) = [True, False]
   \<and> active_loops (run_events ([Start, Start, Task_ends 0] @ [Start])) = 1"
proof -
  have a: "active_loops (run_events [Start]) = 1"
    by (simp add: run_events_def new_plugin_def start_ping_monitor_def create_monitor_task_def
          active_loops_def)
  have b: "tasks (run_events [Start, Start]) = [False]"
    by (simp add: run_events_def new_plugin_def start_ping_monitor_def create_monitor_task_def)
  have c: "tasks (run_events [Start, Start, Task_ends 0, Start]) = [True, False]"
    by (simp add: run_events_def new_plugin_def start_ping_monitor_def create_monitor_task_def)
  from single_monitor [of "[Start]"] a
  have "start_ping_monitor (run_events [Start])
          = ([Log Warning ''Monitor already running''], run_events [Start])"
    and "active_loops (run_events ([Start] @ [Start])) = 1" by blast+
  moreover from single_monitor [of "[Start, Start, Task_ends 0]"]
  have "active_loops (run_events [Start, Start, Task_ends 0]) \<le> 1"
    and "active_loops (run_events ([Start, Start, Task_ends 0] @ [Start])) = 1" by blast+
  ultimately show ?thesis using a b c by simp
qed

end
